theory Spec2Isabelle
  imports Main "HOL-Library.Word"
begin

section \<open>RRC procedures of the srsUE stack (rrc\_procedures.cc)\<close>

text \<open>
  A shallow embedding of the RRC procedure handlers of
  \<^verbatim>\<open>srsue/src/stack/rrc/rrc_procedures.cc\<close>. A \<^verbatim>\<open>uint32_t\<close> is a
  \<open>32 word\<close>; every handler takes the RRC state and returns its outcome with the
  updated state. Calls into MAC, RLC, PDCP, PHY, NAS and USIM are appended to the list
  \<open>calls\<close> of the state, warnings and errors written to the log to the list \<open>rrc_log\<close>
  (info and debug lines are not recorded). Where the C++ has undefined behaviour (a
  division by zero, a null pointer read, an index past the end of a vector) the model
  returns \<open>None\<close>.
\<close>

type_synonym u32 = "32 word"

datatype proc_outcome_t = yield | success | error

subsection \<open>SIB1 contents\<close>

text \<open>
  Modelled from the spec: the ASN.1 types of SIB1 (the headers under
  \<^verbatim>\<open>srslte/asn1\<close> are not part of the sources). The si-Periodicity is one of
  8, 16, 32, 64, 128, 256, 512 radio frames, the si-WindowLength one of
  1, 2, 5, 10, 15, 20, 40 subframes; \<open>to_number\<close> gives the number an enumerator
  stands for. An entry of \<open>sib_map_info\<close> is kept as the number of its SIB type.
\<close>

datatype si_periodicity_r8 = rf8 | rf16 | rf32 | rf64 | rf128 | rf256 | rf512

fun si_periodicity_to_number :: "si_periodicity_r8 \<Rightarrow> u32" where
  "si_periodicity_to_number rf8 = 8"
| "si_periodicity_to_number rf16 = 16"
| "si_periodicity_to_number rf32 = 32"
| "si_periodicity_to_number rf64 = 64"
| "si_periodicity_to_number rf128 = 128"
| "si_periodicity_to_number rf256 = 256"
| "si_periodicity_to_number rf512 = 512"

datatype si_win_len_r8 = ms1 | ms2 | ms5 | ms10 | ms15 | ms20 | ms40

fun si_win_len_to_number :: "si_win_len_r8 \<Rightarrow> u32" where
  "si_win_len_to_number ms1 = 1"
| "si_win_len_to_number ms2 = 2"
| "si_win_len_to_number ms5 = 5"
| "si_win_len_to_number ms10 = 10"
| "si_win_len_to_number ms15 = 15"
| "si_win_len_to_number ms20 = 20"
| "si_win_len_to_number ms40 = 40"

record sched_info_s =
  si_periodicity :: si_periodicity_r8
  sib_map_info :: "u32 list"

record sib_type1_s =
  sched_info_list :: "sched_info_s list"
  si_win_len :: si_win_len_r8

subsection \<open>SI scheduling arithmetic\<close>

definition sib1_periodicity :: u32 where
  "sib1_periodicity = 20"

text \<open>
  The two nested loops of \<open>compute_si_periodicity_and_idx\<close> over the scheduling
  list: \<open>i\<close> is the index of the head of the list still to visit, and the inner loop
  asks whether some entry of \<open>sib_map_info\<close> is \<open>sib_index + 1\<close>.
\<close>

fun find_sib_sched :: "u32 \<Rightarrow> sched_info_s list \<Rightarrow> nat \<Rightarrow> u32 \<times> int" where
  "find_sib_sched sib_index [] i = (0, -1)"
| "find_sib_sched sib_index (si # sis) i =
     (if list_ex (\<lambda>m. m = sib_index + 1) (sib_map_info si)
      then (si_periodicity_to_number (si_periodicity si), int i)
      else find_sib_sched sib_index sis (Suc i))"

text \<open>
  \<open>sib1\<close> is a pointer: \<open>None\<close> is the null pointer. It is read for every index
  but 0, and \<open>sched_info_list[0]\<close> is read unchecked for index 1.
\<close>

definition compute_si_periodicity_and_idx :: "u32 \<Rightarrow> sib_type1_s option \<Rightarrow> (u32 \<times> int) option" where
  "compute_si_periodicity_and_idx sib_index sib1 =
     (if sib_index = 0 then Some (sib1_periodicity, 0)
      else case sib1 of
        None \<Rightarrow> None
      | Some s1 \<Rightarrow>
          if sib_index = 1 then
            (case sched_info_list s1 of
               [] \<Rightarrow> None
             | si # _ \<Rightarrow> Some (si_periodicity_to_number (si_periodicity si), 0))
          else Some (find_sib_sched sib_index (sched_info_list s1) 0))"

text \<open>The division by \<open>T * 10\<close> is a division by zero when the product wraps to 0.\<close>

definition sib_start_tti :: "u32 \<Rightarrow> u32 \<Rightarrow> u32 \<Rightarrow> u32 \<Rightarrow> u32 option" where
  "sib_start_tti tti T offset a =
     (if T * 10 = 0 then None
      else Some ((T * 10 * (1 + tti div (T * 10)) + (offset * 10) + a) mod 10240))"

definition compute_si_window ::
    "u32 \<Rightarrow> u32 \<Rightarrow> u32 \<Rightarrow> u32 \<Rightarrow> sib_type1_s option \<Rightarrow> (u32 \<times> u32) option" where
  "compute_si_window tti sib_index n T sib1 =
     (if sib_index = 0 then
        (case sib_start_tti tti 2 0 5 of
           None \<Rightarrow> None
         | Some si_win_start \<Rightarrow> Some (si_win_start, 1))
      else
        (case sib1 of
           None \<Rightarrow> None
         | Some s1 \<Rightarrow>
             (let si_win_len = si_win_len_to_number (si_win_len s1);
                  x = n * si_win_len;
                  a = x mod 10;
                  offset = x div 10
              in case sib_start_tti tti T offset a of
                   None \<Rightarrow> None
                 | Some si_win_start \<Rightarrow> Some (si_win_start, si_win_len))))"

subsection \<open>TTI points\<close>

text \<open>
  Modelled from the spec: \<^verbatim>\<open>srslte::tti_point\<close> (\<^verbatim>\<open>srslte/common/tti_point.h\<close> is
  not part of the sources). A TTI is a subframe number modulo 10240; the difference of
  two TTIs is taken wrap-aware, as the representative of \<open>a - b\<close> modulo 10240 that lies
  in the window around 0, and \<open>a < b\<close> holds when that difference is negative. The
  comparison is meant for differences of magnitude below 5120.
\<close>

definition tti_sub :: "u32 \<Rightarrow> u32 \<Rightarrow> int" where
  "tti_sub a b =
     (let diff = int (unat a) - int (unat b)
      in if diff > 5120 then diff - 10240
         else if diff < -5119 then diff + 10240
         else diff)"

definition tti_less :: "u32 \<Rightarrow> u32 \<Rightarrow> bool" where
  "tti_less a b = (tti_sub a b < 0)"

definition tti_point :: "u32 \<Rightarrow> u32" where
  "tti_point tti_val = tti_val mod 10240"

subsection \<open>Timers\<close>

text \<open>
  Modelled from the spec: the timer service (\<^verbatim>\<open>srslte/common/timers.h\<close> is not part of
  the sources). A timer has an id, a duration and the flags \<open>running\<close> and \<open>expired\<close>;
  \<open>run\<close> starts it, \<open>stop\<close> stops it, and \<open>set\<close> gives it a new duration. When a
  running timer expires it stops running, is marked expired, and its callback is called
  with the timer's id.
\<close>

record unique_timer =
  timer_id :: u32
  duration :: u32
  running :: bool
  expired :: bool

definition timer_set :: "u32 \<Rightarrow> unique_timer \<Rightarrow> unique_timer" where
  "timer_set d t = t\<lparr>duration := d\<rparr>"

definition timer_run :: "unique_timer \<Rightarrow> unique_timer" where
  "timer_run t = t\<lparr>running := True, expired := False\<rparr>"

definition timer_stop :: "unique_timer \<Rightarrow> unique_timer" where
  "timer_stop t = t\<lparr>running := False\<rparr>"

definition timer_expire :: "unique_timer \<Rightarrow> unique_timer" where
  "timer_expire t = t\<lparr>running := False, expired := True\<rparr>"

subsection \<open>Measured cells\<close>

text \<open>
  Modelled from the spec: a measured cell (\<^verbatim>\<open>rrc_cell.h\<close> is not part of the sources).
  A cell has its PCI and EARFCN, an RSRP, the SIBs 1, 2, 3 and 13 it may hold, and the
  SIB indices that SIB1 schedules; holding a SIB and the SIB being scheduled are
  distinct. The RSRP is a float that the procedures only test and overwrite: it is kept
  as a tag. \<open>sib1ptr\<close> is \<open>None\<close> (the null pointer) when the cell has no SIB1.
\<close>

datatype rsrp_t = RSRP_NAN | RSRP_NEG_INFINITY | RSRP_DBM int

record cell_t =
  pci :: u32
  earfcn :: u32
  rsrp :: rsrp_t
  sib1 :: "sib_type1_s option"
  has_valid_sib2 :: bool
  has_valid_sib3 :: bool
  has_valid_sib13 :: bool
  scheduled_sibs :: "u32 list"
  has_mcch :: bool

definition has_sib1 :: "cell_t \<Rightarrow> bool" where
  "has_sib1 c = (sib1 c \<noteq> None)"

definition has_sib :: "cell_t \<Rightarrow> u32 \<Rightarrow> bool" where
  "has_sib c index =
     (if index = 0 then has_sib1 c
      else if index = 1 then has_valid_sib2 c
      else if index = 2 then has_valid_sib3 c
      else if index = 12 then has_valid_sib13 c
      else False)"

definition sib1ptr :: "cell_t \<Rightarrow> sib_type1_s option" where
  "sib1ptr c = sib1 c"

definition is_sib_scheduled :: "cell_t \<Rightarrow> u32 \<Rightarrow> bool" where
  "is_sib_scheduled c sib_index = (sib_index \<in> set (scheduled_sibs c))"

definition reset_sibs :: "cell_t \<Rightarrow> cell_t" where
  "reset_sibs c =
     c\<lparr>sib1 := None, has_valid_sib2 := False, has_valid_sib3 := False,
       has_valid_sib13 := False\<rparr>"

subsection \<open>The procedure engine\<close>

text \<open>
  Modelled from the spec: the generic procedure runner
  (\<^verbatim>\<open>srslte/common/stack_procedure.h\<close> is not part of the sources). A procedure manager
  is busy while an invocation runs. \<open>launch\<close> fails when it is busy; otherwise it
  creates the result of the new invocation, still pending, and runs \<open>init\<close>. An outcome
  other than \<open>yield\<close> completes the invocation: the \<open>then\<close> hook runs, the result
  becomes success or error, and the manager is idle again. A future is a handle on the
  result of one invocation (here its position in the list of the manager's results); an
  empty future is never complete. \<open>run\<close> calls \<open>step\<close> when busy and tells whether the
  procedure is still running; \<open>trigger\<close> calls \<open>react\<close> when busy.
\<close>

datatype proc_result_t = res_pending | res_success | res_error

record proc_manager =
  busy :: bool
  results :: "proc_result_t list"

type_synonym proc_future_t = "nat option"

definition get_future :: "proc_manager \<Rightarrow> proc_future_t" where
  "get_future m = (if results m = [] then None else Some (length (results m) - 1))"

definition fut_result :: "proc_manager \<Rightarrow> proc_future_t \<Rightarrow> proc_result_t" where
  "fut_result m fut =
     (case fut of
        None \<Rightarrow> res_pending
      | Some i \<Rightarrow> if i < length (results m) then results m ! i else res_pending)"

definition is_complete :: "proc_manager \<Rightarrow> proc_future_t \<Rightarrow> bool" where
  "is_complete m fut = (fut_result m fut \<noteq> res_pending)"

definition is_error :: "proc_manager \<Rightarrow> proc_future_t \<Rightarrow> bool" where
  "is_error m fut = (fut_result m fut = res_error)"

definition is_success :: "proc_manager \<Rightarrow> proc_future_t \<Rightarrow> bool" where
  "is_success m fut = (fut_result m fut = res_success)"

definition start_invocation :: "proc_manager \<Rightarrow> proc_manager" where
  "start_invocation m = m\<lparr>busy := True, results := results m @ [res_pending]\<rparr>"

definition complete_invocation :: "bool \<Rightarrow> proc_manager \<Rightarrow> proc_manager" where
  "complete_invocation ok m =
     m\<lparr>busy := False,
       results := (results m)[length (results m) - 1 := (if ok then res_success else res_error)]\<rparr>"

subsection \<open>The RRC state\<close>

datatype rrc_state_t = RRC_STATE_IDLE | RRC_STATE_CONNECTED

datatype log_level = LOG_ERROR | LOG_WARNING

record s_tmsi_t =
  mmec :: "8 word"
  m_tmsi :: u32

type_synonym byte_buffer = "8 word list"

text \<open>
  The calls the procedures make into the other layers and into the parts of the RRC
  that lie outside \<^verbatim>\<open>rrc_procedures.cc\<close>, with the arguments that the procedure
  computes itself.
\<close>

datatype call =
    MAC_bcch_start_rx u32 u32
  | MAC_reset
  | MAC_wait_uplink
  | MAC_clear_rntis
  | MAC_get_rntis
  | MAC_set_ho_rnti u32 u32
  | MAC_start_noncont_ho u32 u32
  | MAC_start_cont_ho
  | RLC_reestablish
  | PDCP_reestablish
  | PDCP_config_security_all
  | PHY_reset
  | PHY_start_cell_select u32 u32
  | PHY_start_cell_select_serving
  | USIM_generate_as_keys_ho u32 int
  | NAS_paging s_tmsi_t
  | NAS_connection_request_completed bool
  | RRC_set_mac_default
  | RRC_set_phy_default
  | RRC_send_con_request
  | RRC_handle_sib2
  | RRC_handle_sib13
  | RRC_set_serving_cell u32 u32 bool
  | RRC_apply_scell_config
  | RRC_apply_rr_config_common bool
  | RRC_apply_rr_config_dedicated
  | RRC_send_rrc_con_reconfig_complete
  | RRC_leave_connected
  | RRC_con_reconfig_failed
  | MEAS_add_meas_cell u32 u32
  | MEAS_set_serving_cell u32 u32 bool
  | MEAS_parse_meas_config

record si_acquire_proc =
  sib_index :: u32
  period :: u32
  sched_index :: u32
  si_acq_timeout :: unique_timer
  si_acq_retry_timer :: unique_timer

text \<open>
  \<open>req_idx\<close> is a \<^verbatim>\<open>uint32_t\<close> that counts up to the size of \<open>required_sibs\<close>; it is
  kept as a natural number (a vector of 2^32 SIB indices is out of reach).
\<close>

record serving_cell_config_proc =
  required_sibs :: "u32 list"
  req_idx :: nat
  si_acquire_fut :: proc_future_t

datatype cs_result_t = changed_cell | same_cell | no_cell

datatype conn_req_state_t = cr_cell_selection | cr_config_serving_cell | cr_wait_t300

record connection_request_proc =
  cr_state :: conn_req_state_t
  cr_cause :: u32
  cr_dedicated_info_nas :: "byte_buffer option"
  cs_ret :: cs_result_t
  cr_serv_cfg_fut :: proc_future_t

record paging_record_s =
  ue_id_s_tmsi :: s_tmsi_t

record paging_s =
  paging_record_list :: "paging_record_s list"
  sys_info_mod_present :: bool

datatype pcch_state_t = pcch_next_record | pcch_nas_paging | pcch_serv_cell_cfg

record process_pcch_proc =
  paging :: paging_s
  paging_idx :: nat
  pcch_state :: pcch_state_t
  pcch_serv_cfg_fut :: proc_future_t

record mob_ctrl_info_s =
  target_pci :: u32
  carrier_freq_present :: bool
  dl_carrier_freq :: u32
  t304_number :: u32
  new_ue_id :: u32
  rach_cfg_ded_present :: bool
  ra_preamb_idx :: u32
  ra_prach_mask_idx :: u32

record security_cfg_ho_s =
  next_hop_chaining_count :: u32
  key_change_ind :: bool
  security_algorithm_cfg_present :: bool
  ciphering_algorithm :: u32
  integrity_prot_algorithm :: u32

record rrc_conn_recfg_r8_ies_s =
  mob_ctrl_info :: mob_ctrl_info_s
  rr_cfg_ded_present :: bool
  security_cfg_ho_present :: bool
  security_cfg_ho :: security_cfg_ho_s

datatype ho_state_t = launch_phy_cell_select | wait_phy_cell_select_complete | wait_ra_completion

record ho_proc =
  ho_state :: ho_state_t
  recfg_r8 :: rrc_conn_recfg_r8_ies_s
  target_earfcn :: u32
  ho_src_cell :: cell_t
  ho_src_rnti :: u32

datatype cell_search_ret_t = CELL_FOUND | CELL_NOT_FOUND | ERROR

record phy_cell_t =
  phy_pci :: u32
  phy_earfcn :: u32

record cell_srch_res =
  cs_ret_found :: cell_search_ret_t
  found_cell :: phy_cell_t

datatype cell_search_state_t =
  phy_cell_search | phy_cell_select | wait_measurement | si_acquire

record cell_search_proc =
  cell_search_state :: cell_search_state_t
  search_result :: cell_srch_res

datatype search_state_t = cell_selection | serv_cell_camp | cell_config | cell_search

record as_security_config_t =
  cipher_algo :: u32
  integ_algo :: u32

text \<open>
  The part of the \<^verbatim>\<open>rrc\<close> object that the procedures below read and write. The fields
  \<open>phy_cell_is_camping\<close>, \<open>phy_start_cell_select_ret\<close>, \<open>nas_paging_ret\<close>,
  \<open>add_meas_cell_ret\<close> and \<open>parse_meas_config_ret\<close> hold what the other layers answer
  to the call of that name, \<open>mac_crnti\<close> the C-RNTI that \<^verbatim>\<open>mac->get_rntis\<close> gives;
  \<open>current_tti\<close> is the value of \<^verbatim>\<open>stack->get_current_tti()\<close>.
\<close>

record rrc =
  state :: rrc_state_t
  current_tti :: u32
  serving_cell :: cell_t
  neighbour_cells :: "cell_t list"
  ue_required_sibs :: "u32 list"
  ue_identity :: s_tmsi_t
  dedicated_info_nas :: "byte_buffer option"
  sec_cfg :: as_security_config_t
  t300 :: unique_timer
  t304 :: unique_timer
  t310 :: unique_timer
  phy_cell_is_camping :: bool
  phy_start_cell_select_ret :: bool
  nas_paging_ret :: bool
  add_meas_cell_ret :: bool
  parse_meas_config_ret :: bool
  mac_crnti :: u32
  si_acq :: si_acquire_proc
  si_acquirer :: proc_manager
  scc :: serving_cell_config_proc
  serv_cell_cfg :: proc_manager
  conn_req :: connection_request_proc
  conn_req_proc :: proc_manager
  pcch :: process_pcch_proc
  ho :: ho_proc
  cell_srch :: cell_search_proc
  cell_sel_state :: search_state_t
  rrc_log :: "log_level list"
  calls :: "call list"

definition log_error :: "rrc \<Rightarrow> rrc" where
  "log_error r = r\<lparr>rrc_log := rrc_log r @ [LOG_ERROR]\<rparr>"

definition log_warning :: "rrc \<Rightarrow> rrc" where
  "log_warning r = r\<lparr>rrc_log := rrc_log r @ [LOG_WARNING]\<rparr>"

definition do_call :: "call \<Rightarrow> rrc \<Rightarrow> rrc" where
  "do_call c r = r\<lparr>calls := calls r @ [c]\<rparr>"

definition do_calls :: "call list \<Rightarrow> rrc \<Rightarrow> rrc" where
  "do_calls cs r = r\<lparr>calls := calls r @ cs\<rparr>"

text \<open>
  What a handler adds to the recorded calls: \<open>adds_only P r r'\<close> says that the calls
  of \<open>r'\<close> are those of \<open>r\<close> followed by calls that all satisfy \<open>P\<close>. The stack
  reset of the handover is the reestablishment of PDCP and RLC and the reset of MAC (with
  \<open>wait_uplink\<close> and \<open>clear_rntis\<close>) and PHY.
\<close>

definition added_calls :: "rrc \<Rightarrow> rrc \<Rightarrow> call list" where
  "added_calls r r' = drop (length (calls r)) (calls r')"

definition adds_only :: "(call \<Rightarrow> bool) \<Rightarrow> rrc \<Rightarrow> rrc \<Rightarrow> bool" where
  "adds_only P r r' =
     (take (length (calls r)) (calls r') = calls r \<and> list_all P (added_calls r r'))"

definition is_nas_paging :: "call \<Rightarrow> bool" where
  "is_nas_paging c = (case c of NAS_paging _ \<Rightarrow> True | _ \<Rightarrow> False)"

definition is_phy_cell_select :: "call \<Rightarrow> bool" where
  "is_phy_cell_select c =
     (case c of
        PHY_start_cell_select _ _ \<Rightarrow> True
      | PHY_start_cell_select_serving \<Rightarrow> True
      | _ \<Rightarrow> False)"

definition is_stack_reset :: "call \<Rightarrow> bool" where
  "is_stack_reset c =
     (case c of
        PDCP_reestablish \<Rightarrow> True
      | RLC_reestablish \<Rightarrow> True
      | MAC_wait_uplink \<Rightarrow> True
      | MAC_clear_rntis \<Rightarrow> True
      | MAC_reset \<Rightarrow> True
      | PHY_reset \<Rightarrow> True
      | _ \<Rightarrow> False)"

text \<open>
  A handler that is no part of the paging procedure adds no call to NAS paging and
  leaves the fields of the paging procedure as they are.
\<close>

definition pcch_untouched :: "rrc \<Rightarrow> rrc \<Rightarrow> bool" where
  "pcch_untouched r r' = (adds_only (\<lambda>c. \<not> is_nas_paging c) r r' \<and> pcch r' = pcch r)"

subsection \<open>SI acquisition procedure\<close>

definition si_acquire_proc_start_si_acquire :: "rrc \<Rightarrow> rrc option" where
  "si_acquire_proc_start_si_acquire r =
     (let nof_sib_harq_retxs = 5;
          tti = current_tti r
      in case compute_si_window tti (sib_index (si_acq r)) (sched_index (si_acq r))
                (period (si_acq r)) (sib1ptr (serving_cell r)) of
           None \<Rightarrow> None
         | Some (ret_first, ret_second) \<Rightarrow>
             (let si_win_start = tti_point ret_first
              in if tti_less si_win_start tti then Some (log_error r)
                 else
                   (let si_win_len = ret_second;
                        r1 = do_call (MAC_bcch_start_rx si_win_start si_win_len) r;
                        retry_period =
                          (if sib_index (si_acq r) = 0 then sib1_periodicity
                           else period (si_acq r) * nof_sib_harq_retxs);
                        tics_until_si_win_start = tti_sub si_win_start tti;
                        tics_until_si_retry = retry_period + word_of_int tics_until_si_win_start
                    in Some (r1\<lparr>si_acq := (si_acq r1)\<lparr>si_acq_retry_timer :=
                         timer_run (timer_set tics_until_si_retry
                           (si_acq_retry_timer (si_acq r1)))\<rparr>\<rparr>))))"

definition si_acquire_proc_init :: "u32 \<Rightarrow> rrc \<Rightarrow> (proc_outcome_t \<times> rrc) option" where
  "si_acquire_proc_init sib_index_arg r =
     (if has_sib (serving_cell r) sib_index_arg then Some (success, r)
      else
        (let r1 = r\<lparr>si_acq := (si_acq r)\<lparr>sib_index := sib_index_arg\<rparr>\<rparr>
         in if sib_index (si_acq r1) > 0 \<and> \<not> has_sib1 (serving_cell r1)
            then Some (error, log_error r1)
            else
              (case compute_si_periodicity_and_idx (sib_index (si_acq r1))
                      (sib1ptr (serving_cell r1)) of
                 None \<Rightarrow> None
               | Some (ret_first, ret_second) \<Rightarrow>
                   if ret_second < 0 then Some (error, r1)
                   else
                     (let r2 = r1\<lparr>si_acq := (si_acq r1)\<lparr>period := ret_first,
                                 sched_index := word_of_int ret_second\<rparr>\<rparr>
                      in case si_acquire_proc_start_si_acquire r2 of
                           None \<Rightarrow> None
                         | Some r3 \<Rightarrow>
                             Some (yield, r3\<lparr>si_acq := (si_acq r3)\<lparr>si_acq_timeout :=
                               timer_run (si_acq_timeout (si_acq r3))\<rparr>\<rparr>)))))"

text \<open>\<open>ok\<close> is \<^verbatim>\<open>result.is_success()\<close>.\<close>

definition si_acquire_proc_then :: "bool \<Rightarrow> rrc \<Rightarrow> rrc" where
  "si_acquire_proc_then ok r =
     (let r1 = r\<lparr>si_acq := (si_acq r)\<lparr>si_acq_retry_timer :=
                 timer_stop (si_acq_retry_timer (si_acq r))\<rparr>\<rparr>;
          r2 = r1\<lparr>si_acq := (si_acq r1)\<lparr>si_acq_timeout :=
                 timer_stop (si_acq_timeout (si_acq r1))\<rparr>\<rparr>
      in if ok then r2 else log_error r2)"

definition si_acquire_proc_react_sib_received :: "rrc \<Rightarrow> (proc_outcome_t \<times> rrc) option" where
  "si_acquire_proc_react_sib_received r =
     Some (if has_sib (serving_cell r) (sib_index (si_acq r)) then success else yield, r)"

text \<open>The event \<^verbatim>\<open>si_acq_timer_expired\<close> carries the id of the timer that expired.\<close>

definition si_acquire_proc_react_timer_expired :: "u32 \<Rightarrow> rrc \<Rightarrow> (proc_outcome_t \<times> rrc) option" where
  "si_acquire_proc_react_timer_expired ev_timer_id r =
     (if has_sib (serving_cell r) (sib_index (si_acq r)) then Some (success, r)
      else if ev_timer_id = timer_id (si_acq_retry_timer (si_acq r)) then
        (case si_acquire_proc_start_si_acquire r of
           None \<Rightarrow> None
         | Some r1 \<Rightarrow> Some (yield, r1))
      else Some (error, log_error r))"

text \<open>
  The manager \<^verbatim>\<open>rrc::si_acquirer\<close> of the SI acquisition procedure: the engine's
  \<open>launch\<close> and \<open>trigger\<close> around \<open>init\<close>, \<open>react\<close> and \<open>then\<close>.
\<close>

definition si_acquirer_handle_outcome :: "proc_outcome_t \<Rightarrow> rrc \<Rightarrow> rrc" where
  "si_acquirer_handle_outcome outcome r =
     (if outcome = yield then r
      else
        (let r1 = si_acquire_proc_then (outcome = success) r
         in r1\<lparr>si_acquirer := complete_invocation (outcome = success) (si_acquirer r1)\<rparr>))"

definition si_acquirer_launch :: "u32 \<Rightarrow> rrc \<Rightarrow> (bool \<times> rrc) option" where
  "si_acquirer_launch sib_index_arg r =
     (if busy (si_acquirer r) then Some (False, r)
      else
        (case si_acquire_proc_init sib_index_arg
                (r\<lparr>si_acquirer := start_invocation (si_acquirer r)\<rparr>) of
           None \<Rightarrow> None
         | Some (outcome, r1) \<Rightarrow> Some (True, si_acquirer_handle_outcome outcome r1)))"

datatype si_acquirer_event = sib_received_ev | si_acq_timer_expired u32

definition si_acquirer_trigger :: "si_acquirer_event \<Rightarrow> rrc \<Rightarrow> rrc option" where
  "si_acquirer_trigger ev r =
     (if \<not> busy (si_acquirer r) then Some r
      else
        (case (case ev of
                 sib_received_ev \<Rightarrow> si_acquire_proc_react_sib_received r
               | si_acq_timer_expired tid \<Rightarrow> si_acquire_proc_react_timer_expired tid r) of
           None \<Rightarrow> None
         | Some (outcome, r1) \<Rightarrow> Some (si_acquirer_handle_outcome outcome r1)))"

text \<open>
  The callbacks that the constructor of \<open>si_acquire_proc\<close> gives its two timers: when
  the timer expires, the event \<^verbatim>\<open>si_acq_timer_expired{tid}\<close> is triggered with the
  timer's own id. A timer that is not running does not expire.
\<close>

definition si_acq_retry_timer_expires :: "rrc \<Rightarrow> rrc option" where
  "si_acq_retry_timer_expires r =
     (if \<not> running (si_acq_retry_timer (si_acq r)) then Some r
      else si_acquirer_trigger (si_acq_timer_expired (timer_id (si_acq_retry_timer (si_acq r))))
             (r\<lparr>si_acq := (si_acq r)\<lparr>si_acq_retry_timer :=
                timer_expire (si_acq_retry_timer (si_acq r))\<rparr>\<rparr>))"

definition si_acq_timeout_expires :: "rrc \<Rightarrow> rrc option" where
  "si_acq_timeout_expires r =
     (if \<not> running (si_acq_timeout (si_acq r)) then Some r
      else si_acquirer_trigger (si_acq_timer_expired (timer_id (si_acq_timeout (si_acq r))))
             (r\<lparr>si_acq := (si_acq r)\<lparr>si_acq_timeout :=
                timer_expire (si_acq_timeout (si_acq r))\<rparr>\<rparr>))"



subsection \<open>Serving cell configuration procedure\<close>

text \<open>
  The loop of \<open>launch_sib_acquire\<close>: one iteration is one unfolding, and the loop
  variable is the field \<open>req_idx\<close> of the procedure.
\<close>

function serving_cell_config_proc_launch_sib_acquire :: "rrc \<Rightarrow> (proc_outcome_t \<times> rrc) option" where
  "serving_cell_config_proc_launch_sib_acquire r =
     (if req_idx (scc r) < length (required_sibs (scc r)) then
        (let required_sib = required_sibs (scc r) ! req_idx (scc r)
         in if \<not> has_sib (serving_cell r) required_sib then
              (if required_sib < 2 \<or> is_sib_scheduled (serving_cell r) required_sib then
                 (case si_acquirer_launch required_sib r of
                    None \<Rightarrow> None
                  | Some (launched, r1) \<Rightarrow>
                      if \<not> launched then Some (error, log_error r1)
                      else Some (yield,
                        r1\<lparr>scc := (scc r1)\<lparr>si_acquire_fut := get_future (si_acquirer r1)\<rparr>\<rparr>))
               else serving_cell_config_proc_launch_sib_acquire
                      (r\<lparr>scc := (scc r)\<lparr>req_idx := req_idx (scc r) + 1\<rparr>\<rparr>))
            else
              (let r1 = (if required_sib = 1 then do_call RRC_handle_sib2 r
                         else if required_sib = 12 then do_call RRC_handle_sib13 r
                         else r)
               in serving_cell_config_proc_launch_sib_acquire
                    (r1\<lparr>scc := (scc r1)\<lparr>req_idx := req_idx (scc r1) + 1\<rparr>\<rparr>)))
      else Some (success, r))"
  by pat_completeness auto
termination
  by (relation "measure (\<lambda>r. length (required_sibs (scc r)) - req_idx (scc r))")
     (auto simp: do_call_def)

definition serving_cell_config_proc_init :: "u32 list \<Rightarrow> rrc \<Rightarrow> (proc_outcome_t \<times> rrc) option" where
  "serving_cell_config_proc_init required_sibs_arg r =
     (let r1 = r\<lparr>scc := (scc r)\<lparr>required_sibs := required_sibs_arg\<rparr>\<rparr>
      in if \<not> phy_cell_is_camping r1 then Some (error, log_error r1)
         else
           (let r2 = r1\<lparr>serving_cell := (serving_cell r1)\<lparr>has_mcch := False\<rparr>\<rparr>;
                r3 = r2\<lparr>scc := (scc r2)\<lparr>req_idx := 0\<rparr>\<rparr>
            in serving_cell_config_proc_launch_sib_acquire r3))"

text \<open>
  \<open>step\<close> reads \<open>required_sibs[req_idx]\<close> unchecked: the read is out of bounds, and
  the result \<open>None\<close>, when \<open>req_idx\<close> is not below the size of the vector.
\<close>

definition serving_cell_config_proc_step :: "rrc \<Rightarrow> (proc_outcome_t \<times> rrc) option" where
  "serving_cell_config_proc_step r =
     (if \<not> is_complete (si_acquirer r) (si_acquire_fut (scc r)) then Some (yield, r)
      else if \<not> req_idx (scc r) < length (required_sibs (scc r)) then None
      else
        (let required_sib = required_sibs (scc r) ! req_idx (scc r)
         in if (is_error (si_acquirer r) (si_acquire_fut (scc r)) \<or>
                \<not> has_sib (serving_cell r) required_sib) \<and> required_sib < 2
            then Some (error, log_warning r)
            else serving_cell_config_proc_launch_sib_acquire
                   (r\<lparr>scc := (scc r)\<lparr>req_idx := req_idx (scc r) + 1\<rparr>\<rparr>)))"

text \<open>
  The manager \<^verbatim>\<open>rrc::serv_cell_cfg\<close>: the engine's \<open>launch\<close> and \<open>run\<close> around
  \<open>init\<close> and \<open>step\<close> (the procedure has no \<open>then\<close> hook).
\<close>

definition serv_cell_cfg_handle_outcome :: "proc_outcome_t \<Rightarrow> rrc \<Rightarrow> rrc" where
  "serv_cell_cfg_handle_outcome outcome r =
     (if outcome = yield then r
      else r\<lparr>serv_cell_cfg := complete_invocation (outcome = success) (serv_cell_cfg r)\<rparr>)"

definition serv_cell_cfg_launch :: "u32 list \<Rightarrow> rrc \<Rightarrow> (bool \<times> rrc) option" where
  "serv_cell_cfg_launch required_sibs_arg r =
     (if busy (serv_cell_cfg r) then Some (False, r)
      else
        (case serving_cell_config_proc_init required_sibs_arg
                (r\<lparr>serv_cell_cfg := start_invocation (serv_cell_cfg r)\<rparr>) of
           None \<Rightarrow> None
         | Some (outcome, r1) \<Rightarrow> Some (True, serv_cell_cfg_handle_outcome outcome r1)))"

definition serv_cell_cfg_run :: "rrc \<Rightarrow> (bool \<times> rrc) option" where
  "serv_cell_cfg_run r =
     (if busy (serv_cell_cfg r) then
        (case serving_cell_config_proc_step r of
           None \<Rightarrow> None
         | Some (outcome, r1) \<Rightarrow>
             (let r2 = serv_cell_cfg_handle_outcome outcome r1
              in Some (busy (serv_cell_cfg r2), r2)))
      else Some (False, r))"

text \<open>
  The states in which the serving cell configuration procedure can be: it is launched
  from a state in which it is idle, the engine runs it, and between two runs everything
  may change but the procedure's own fields and its manager.
\<close>

inductive serv_cell_cfg_reachable :: "rrc \<Rightarrow> bool" where
  launched: "\<not> busy (serv_cell_cfg r0) \<Longrightarrow> serv_cell_cfg_launch sibs r0 = Some (True, r) \<Longrightarrow>
     serv_cell_cfg_reachable r"
| run: "serv_cell_cfg_reachable r \<Longrightarrow> serv_cell_cfg_run r = Some (b, r') \<Longrightarrow>
     serv_cell_cfg_reachable r'"
| others: "serv_cell_cfg_reachable r \<Longrightarrow> scc r' = scc r \<Longrightarrow> serv_cell_cfg r' = serv_cell_cfg r \<Longrightarrow>
     serv_cell_cfg_reachable r'"

subsection \<open>Connection request procedure\<close>

text \<open>
  \<open>step\<close> calls itself once, after it has set the state to \<open>wait_t300\<close>. The
  dedicated NAS message of the procedure is moved into the RRC: the procedure's own
  buffer is empty afterwards.
\<close>

function connection_request_proc_step :: "rrc \<Rightarrow> (proc_outcome_t \<times> rrc) option" where
  "connection_request_proc_step r =
     (if cr_state (conn_req r) = cr_cell_selection then Some (yield, r)
      else if cr_state (conn_req r) = cr_config_serving_cell then
        (case serv_cell_cfg_run r of
           None \<Rightarrow> None
         | Some (cfg_running, r1) \<Rightarrow>
             if cfg_running then Some (yield, r1)
             else if is_error (serv_cell_cfg r1) (cr_serv_cfg_fut (conn_req r1))
             then Some (error, log_error r1)
             else
               (let r2 = r1\<lparr>t300 := timer_run (t300 r1)\<rparr>;
                    r3 = do_call RRC_send_con_request r2;
                    r4 = (if cr_dedicated_info_nas (conn_req r3) \<noteq> None then
                            (let r3a = (if dedicated_info_nas r3 \<noteq> None
                                        then (log_warning r3)\<lparr>dedicated_info_nas := None\<rparr>
                                        else r3)
                             in r3a\<lparr>dedicated_info_nas := cr_dedicated_info_nas (conn_req r3a),
                                    conn_req := (conn_req r3a)\<lparr>cr_dedicated_info_nas := None\<rparr>\<rparr>)
                          else r3);
                    r5 = r4\<lparr>conn_req := (conn_req r4)\<lparr>cr_state := cr_wait_t300\<rparr>\<rparr>
                in connection_request_proc_step r5))
      else if cr_state (conn_req r) = cr_wait_t300 then
        (if running (t300 r) then Some (yield, r)
         else if state r = RRC_STATE_CONNECTED then Some (success, r)
         else if expired (t300 r) then
           Some (error,
             do_call RLC_reestablish (do_call RRC_set_mac_default (do_call MAC_reset (log_warning r))))
         else
           Some (error, do_call RRC_set_mac_default (do_call MAC_reset (log_warning r))))
      else Some (error, r))"
  by pat_completeness auto
termination
  by (relation "measure (\<lambda>r. if cr_state (conn_req r) = cr_config_serving_cell then 1 else 0)")
     (auto simp: Let_def)

text \<open>\<open>ok\<close> is \<^verbatim>\<open>result.is_success()\<close>; a completed result is an error when it is no success.\<close>

definition connection_request_proc_then :: "bool \<Rightarrow> rrc \<Rightarrow> rrc" where
  "connection_request_proc_then ok r =
     (let r1 = (if \<not> ok
                then (log_warning r)\<lparr>conn_req := (conn_req r)\<lparr>cr_dedicated_info_nas := None\<rparr>,
                       dedicated_info_nas := None\<rparr>
                else r)
      in do_call (NAS_connection_request_completed ok) r1)"

text \<open>
  The event of \<open>react\<close> is the result of the cell selection procedure: an error, or
  the value it produced.
\<close>

datatype cell_selection_complete_ev = cs_error | cs_value cs_result_t

definition connection_request_proc_react ::
    "cell_selection_complete_ev \<Rightarrow> rrc \<Rightarrow> (proc_outcome_t \<times> rrc) option" where
  "connection_request_proc_react e r =
     (if cr_state (conn_req r) \<noteq> cr_cell_selection then Some (yield, r)
      else case e of
        cs_error \<Rightarrow> Some (error, r)
      | cs_value v \<Rightarrow>
          (let r1 = r\<lparr>conn_req := (conn_req r)\<lparr>cs_ret := v\<rparr>\<rparr>
           in if phy_cell_is_camping r1 then
                (let r2 = do_call RRC_set_mac_default (do_call RRC_set_phy_default r1)
                 in case serv_cell_cfg_launch (ue_required_sibs r2) r2 of
                      None \<Rightarrow> None
                    | Some (launched, r3) \<Rightarrow>
                        if \<not> launched then Some (error, log_error r3)
                        else connection_request_proc_step
                               (r3\<lparr>conn_req := (conn_req r3)
                                  \<lparr>cr_serv_cfg_fut := get_future (serv_cell_cfg r3),
                                   cr_state := cr_config_serving_cell\<rparr>\<rparr>))
              else Some (error, log_warning r1)))"

text \<open>
  The manager \<^verbatim>\<open>rrc::conn_req_proc\<close>: the engine's \<open>run\<close> around \<open>step\<close> and
  \<open>then\<close>.
\<close>

definition conn_req_proc_handle_outcome :: "proc_outcome_t \<Rightarrow> rrc \<Rightarrow> rrc" where
  "conn_req_proc_handle_outcome outcome r =
     (if outcome = yield then r
      else
        (let r1 = connection_request_proc_then (outcome = success) r
         in r1\<lparr>conn_req_proc := complete_invocation (outcome = success) (conn_req_proc r1)\<rparr>))"

definition conn_req_proc_run :: "rrc \<Rightarrow> (bool \<times> rrc) option" where
  "conn_req_proc_run r =
     (if busy (conn_req_proc r) then
        (case connection_request_proc_step r of
           None \<Rightarrow> None
         | Some (outcome, r1) \<Rightarrow>
             (let r2 = conn_req_proc_handle_outcome outcome r1
              in Some (busy (conn_req_proc r2), r2)))
      else Some (False, r))"

subsection \<open>Paging procedure\<close>

text \<open>
  The S-TMSI of a paging record is kept as \<^verbatim>\<open>make_s_tmsi_t\<close> returns it, and
  \<open>s_tmsi_eq\<close> is the \<^verbatim>\<open>operator==\<close> of two S-TMSIs. One iteration
  of the loop over the paging records is one unfolding of \<open>step\<close> with \<open>paging_idx\<close>
  advanced; \<open>paging_idx\<close> counts up to the size of the list and is kept as a natural
  number.
\<close>

definition s_tmsi_eq :: "s_tmsi_t \<Rightarrow> s_tmsi_t \<Rightarrow> bool" where
  "s_tmsi_eq a b = (mmec a = mmec b \<and> m_tmsi a = m_tmsi b)"

function process_pcch_proc_step :: "rrc \<Rightarrow> (proc_outcome_t \<times> rrc) option" where
  "process_pcch_proc_step r =
     (if pcch_state (pcch r) = pcch_next_record then
        (if paging_idx (pcch r) < length (paging_record_list (paging (pcch r))) then
           (let s_tmsi_paged =
                  ue_id_s_tmsi (paging_record_list (paging (pcch r)) ! paging_idx (pcch r))
            in if s_tmsi_eq (ue_identity r) s_tmsi_paged then
                 (if RRC_STATE_IDLE = state r then
                    (let r1 = do_call (NAS_paging s_tmsi_paged) r
                     in if \<not> nas_paging_ret r1 then Some (error, log_error r1)
                        else process_pcch_proc_step
                               (r1\<lparr>pcch := (pcch r1)\<lparr>pcch_state := pcch_nas_paging\<rparr>\<rparr>))
                  else process_pcch_proc_step
                         ((log_warning r)\<lparr>pcch := (pcch r)\<lparr>paging_idx := paging_idx (pcch r) + 1\<rparr>\<rparr>))
               else process_pcch_proc_step
                      (r\<lparr>pcch := (pcch r)\<lparr>paging_idx := paging_idx (pcch r) + 1\<rparr>\<rparr>))
         else if sys_info_mod_present (paging (pcch r)) then
           (let r1 = r\<lparr>serving_cell := reset_sibs (serving_cell r)\<rparr>
            in case serv_cell_cfg_launch (ue_required_sibs r1) r1 of
                 None \<Rightarrow> None
               | Some (launched, r2) \<Rightarrow>
                   if \<not> launched then Some (error, log_error r2)
                   else process_pcch_proc_step
                          (r2\<lparr>pcch := (pcch r2)
                             \<lparr>pcch_serv_cfg_fut := get_future (serv_cell_cfg r2),
                              pcch_state := pcch_serv_cell_cfg\<rparr>\<rparr>))
         else Some (success, r))
      else if pcch_state (pcch r) = pcch_nas_paging then Some (yield, r)
      else if pcch_state (pcch r) = pcch_serv_cell_cfg then
        (case serv_cell_cfg_run r of
           None \<Rightarrow> None
         | Some (cfg_running, r1) \<Rightarrow>
             if cfg_running then Some (yield, r1)
             else if is_success (serv_cell_cfg r1) (pcch_serv_cfg_fut (pcch r1))
             then Some (success, r1)
             else Some (error, log_error r1))
      else Some (yield, r))"
  by pat_completeness auto
termination
  by (relation "measure (\<lambda>r. if pcch_state (pcch r) = pcch_next_record
        then Suc (length (paging_record_list (paging (pcch r))) - paging_idx (pcch r)) else 0)")
     (auto simp: log_warning_def do_call_def)

definition process_pcch_proc_init :: "paging_s \<Rightarrow> rrc \<Rightarrow> (proc_outcome_t \<times> rrc) option" where
  "process_pcch_proc_init paging_arg r =
     process_pcch_proc_step
       (r\<lparr>pcch := (pcch r)\<lparr>paging := paging_arg, paging_idx := 0,
                              pcch_state := pcch_next_record\<rparr>\<rparr>)"

text \<open>The event \<^verbatim>\<open>paging_complete\<close> carries the outcome of the NAS paging.\<close>

definition process_pcch_proc_react :: "bool \<Rightarrow> rrc \<Rightarrow> (proc_outcome_t \<times> rrc) option" where
  "process_pcch_proc_react e_outcome r =
     (if pcch_state (pcch r) \<noteq> pcch_nas_paging then Some (yield, log_warning r)
      else if \<not> e_outcome then Some (error, r)
      else process_pcch_proc_step
             (r\<lparr>pcch := (pcch r)\<lparr>paging_idx := paging_idx (pcch r) + 1,
                                    pcch_state := pcch_next_record\<rparr>\<rparr>))"

subsection \<open>Handover procedure\<close>

text \<open>
  Modelled from the spec: the measured cells store keeps the neighbours as an ordered
  sequence of cells; \<open>get_neighbour_cell_handle\<close> gives the position of the first
  neighbour with the EARFCN and PCI asked for, \<open>None\<close> (the null pointer) when there is
  none.
\<close>

fun find_cell :: "u32 \<Rightarrow> u32 \<Rightarrow> cell_t list \<Rightarrow> nat \<Rightarrow> nat option" where
  "find_cell e p [] i = None"
| "find_cell e p (c # cs) i =
     (if earfcn c = e \<and> pci c = p then Some i else find_cell e p cs (Suc i))"

definition get_neighbour_cell_handle :: "u32 \<Rightarrow> u32 \<Rightarrow> rrc \<Rightarrow> nat option" where
  "get_neighbour_cell_handle e p r = find_cell e p (neighbour_cells r) 0"

text \<open>
  \<open>init\<close> takes the release 8 reconfiguration of the received message.
  \<^verbatim>\<open>rrc::has_neighbour_cell\<close> asks the store whether the cell is among the neighbours.
\<close>

definition has_neighbour_cell :: "u32 \<Rightarrow> u32 \<Rightarrow> rrc \<Rightarrow> bool" where
  "has_neighbour_cell e p r = (get_neighbour_cell_handle e p r \<noteq> None)"

definition ho_proc_init :: "rrc_conn_recfg_r8_ies_s \<Rightarrow> rrc \<Rightarrow> proc_outcome_t \<times> rrc" where
  "ho_proc_init rrc_reconf r =
     (let r1 = r\<lparr>ho := (ho r)\<lparr>recfg_r8 := rrc_reconf\<rparr>\<rparr>;
          mci = mob_ctrl_info (recfg_r8 (ho r1))
      in if target_pci mci = pci (serving_cell r1)
         then (error, do_call RRC_con_reconfig_failed (log_warning r1))
         else
           (let r2 = r1\<lparr>ho := (ho r1)\<lparr>target_earfcn :=
                       (if carrier_freq_present mci then dl_carrier_freq mci
                        else earfcn (serving_cell r1))\<rparr>\<rparr>
            in if \<not> has_neighbour_cell (target_earfcn (ho r2)) (target_pci mci) r2
               then (error, do_call RRC_con_reconfig_failed (log_error r2))
               else
                 (let r3 = r2\<lparr>ho := (ho r2)\<lparr>ho_src_cell := serving_cell r2\<rparr>\<rparr>;
                      r4 = do_call MAC_get_rntis r3;
                      r5 = r4\<lparr>ho := (ho r4)\<lparr>ho_src_rnti := mac_crnti r4\<rparr>\<rparr>;
                      r6 = r5\<lparr>t310 := timer_stop (t310 r5)\<rparr>;
                      r7 = r6\<lparr>t304 := timer_run (timer_set (t304_number mci) (t304 r6))\<rparr>
                  in (yield, r7\<lparr>ho := (ho r7)\<lparr>ho_state := launch_phy_cell_select\<rparr>\<rparr>))))"

text \<open>
  \<open>step\<close> reads the target cell through the pointer without a check: \<open>None\<close> when the
  cell is not among the neighbours. What the functions of the RRC and of the other layers
  do to the state is outside this file: their calls are recorded only.
\<close>

definition ho_proc_step :: "rrc \<Rightarrow> (proc_outcome_t \<times> rrc) option" where
  "ho_proc_step r =
     (if state r \<noteq> RRC_STATE_CONNECTED then Some (error, r)
      else if ho_state (ho r) = launch_phy_cell_select then
        (let mci = mob_ctrl_info (recfg_r8 (ho r));
             r1 = do_calls
                    [PDCP_reestablish, RLC_reestablish, MAC_wait_uplink, MAC_clear_rntis,
                     MAC_reset, PHY_reset,
                     MAC_set_ho_rnti (new_ue_id mci) (target_pci mci),
                     RRC_apply_rr_config_common (\<not> rr_cfg_ded_present (recfg_r8 (ho r)))] r;
             r2 = (if rr_cfg_ded_present (recfg_r8 (ho r))
                   then do_call RRC_apply_rr_config_dedicated r1 else r1)
         in case get_neighbour_cell_handle (target_earfcn (ho r2)) (target_pci mci) r2 of
              None \<Rightarrow> None
            | Some i \<Rightarrow>
                (let target_cell = neighbour_cells r2 ! i;
                     r3 = do_call (PHY_start_cell_select (earfcn target_cell) (pci target_cell)) r2
                 in if \<not> phy_start_cell_select_ret r3 then Some (error, log_error r3)
                    else Some (yield,
                      r3\<lparr>ho := (ho r3)\<lparr>ho_state := wait_phy_cell_select_complete\<rparr>\<rparr>)))
      else Some (yield, r))"

definition ho_proc_react_cell_select :: "bool \<Rightarrow> rrc \<Rightarrow> proc_outcome_t \<times> rrc" where
  "ho_proc_react_cell_select cs_ret_arg r =
     (if ho_state (ho r) \<noteq> wait_phy_cell_select_complete then (yield, log_warning r)
      else
        (let mci = mob_ctrl_info (recfg_r8 (ho r));
             sec = security_cfg_ho (recfg_r8 (ho r))
         in case get_neighbour_cell_handle (target_earfcn (ho r)) (target_pci mci) r of
              None \<Rightarrow> (error, log_error r)
            | Some i \<Rightarrow>
                if \<not> cs_ret_arg then
                  (error, (log_error r)\<lparr>neighbour_cells :=
                     (neighbour_cells r)[i := (neighbour_cells r ! i)\<lparr>rsrp := RSRP_NEG_INFINITY\<rparr>]\<rparr>)
                else
                  (let target_cell = neighbour_cells r ! i;
                       r1 = do_call (RRC_set_serving_cell (earfcn target_cell) (pci target_cell) False) r;
                       r2 = do_call RRC_apply_scell_config r1;
                       r3 = (if rach_cfg_ded_present mci
                             then do_call (MAC_start_noncont_ho (ra_preamb_idx mci)
                                             (ra_prach_mask_idx mci)) r2
                             else do_call MAC_start_cont_ho r2)
                   in if security_cfg_ho_present (recfg_r8 (ho r)) \<and> key_change_ind sec
                      then (error, r3)
                      else
                        (let ncc = (if security_cfg_ho_present (recfg_r8 (ho r))
                                    then int (unat (next_hop_chaining_count sec)) else - 1);
                             r4 = (if security_cfg_ho_present (recfg_r8 (ho r)) \<and>
                                      security_algorithm_cfg_present sec
                                   then r3\<lparr>sec_cfg := (sec_cfg r3)
                                          \<lparr>cipher_algo := ciphering_algorithm sec,
                                           integ_algo := integrity_prot_algorithm sec\<rparr>\<rparr>
                                   else r3);
                             r5 = do_calls
                                    [USIM_generate_as_keys_ho (target_pci mci) ncc,
                                     PDCP_config_security_all,
                                     RRC_send_rrc_con_reconfig_complete] r4
                         in (yield, r5\<lparr>ho := (ho r5)\<lparr>ho_state := wait_ra_completion\<rparr>\<rparr>)))))"

definition ho_proc_react_t304_expiry :: "rrc \<Rightarrow> proc_outcome_t \<times> rrc" where
  "ho_proc_react_t304_expiry r = (error, r)"

definition ho_proc_react_ra_completed :: "bool \<Rightarrow> rrc \<Rightarrow> proc_outcome_t \<times> rrc" where
  "ho_proc_react_ra_completed ev_success r =
     (if ho_state (ho r) \<noteq> wait_ra_completion then (yield, log_warning r)
      else
        (let r1 = (if ev_success then
                     (let r0 = do_call MEAS_parse_meas_config r
                      in if \<not> parse_meas_config_ret r0 then log_error r0 else r0)
                   else r)
         in (if ev_success then success else error, r1)))"

definition ho_proc_then :: "bool \<Rightarrow> rrc \<Rightarrow> rrc" where
  "ho_proc_then ok r = (if ok then r\<lparr>t304 := timer_stop (t304 r)\<rparr> else r)"

subsection \<open>Event handlers of the other procedures\<close>

text \<open>
  In \<open>handle_cell_found\<close> the PHY is asked to select the serving cell of the store as
  it is after \<open>set_serving_cell\<close>.
\<close>

definition cell_search_proc_handle_cell_found :: "phy_cell_t \<Rightarrow> rrc \<Rightarrow> proc_outcome_t \<times> rrc" where
  "cell_search_proc_handle_cell_found new_cell r =
     (let r1 = do_call (MEAS_add_meas_cell (phy_earfcn new_cell) (phy_pci new_cell)) r
      in if \<not> add_meas_cell_ret r1 then (error, log_error r1)
         else
           (let r2 = do_call (MEAS_set_serving_cell (phy_earfcn new_cell) (phy_pci new_cell) False) r1;
                r3 = r2\<lparr>cell_srch := (cell_srch r2)\<lparr>cell_search_state := phy_cell_select\<rparr>\<rparr>;
                r4 = do_call PHY_start_cell_select_serving r3
            in if \<not> phy_start_cell_select_ret r4 then (error, log_error r4)
               else (yield, r4)))"

definition cell_search_proc_react_cell_select :: "bool \<Rightarrow> rrc \<Rightarrow> proc_outcome_t \<times> rrc" where
  "cell_search_proc_react_cell_select cs_ret_arg r =
     (if cell_search_state (cell_srch r) \<noteq> phy_cell_select then (yield, log_warning r)
      else if \<not> cs_ret_arg then (error, log_error r)
      else if \<not> phy_cell_is_camping r then (error, log_warning r)
      else (yield, r\<lparr>cell_srch := (cell_srch r)\<lparr>cell_search_state := wait_measurement\<rparr>\<rparr>))"

definition cell_search_proc_react_cell_search :: "cell_srch_res \<Rightarrow> rrc \<Rightarrow> proc_outcome_t \<times> rrc" where
  "cell_search_proc_react_cell_search event r =
     (if cell_search_state (cell_srch r) \<noteq> phy_cell_search then (error, log_error r)
      else
        (let r1 = r\<lparr>cell_srch := (cell_srch r)\<lparr>search_result := event\<rparr>\<rparr>
         in if cs_ret_found (search_result (cell_srch r1)) = CELL_FOUND
            then cell_search_proc_handle_cell_found (found_cell (search_result (cell_srch r1))) r1
            else if cs_ret_found (search_result (cell_srch r1)) = CELL_NOT_FOUND
            then (success, r1)
            else (error, r1)))"

text \<open>
  \<open>cell_selection_proc::react\<close> dispatches on the state of the procedure. The two
  functions it calls in the states \<open>cell_selection\<close> and \<open>serv_cell_camp\<close> drive the
  measured cells store, the selection criterion and the cell search, which lie outside
  this file; they are parameters here.
\<close>

definition cell_selection_proc_react ::
    "(bool \<Rightarrow> rrc \<Rightarrow> proc_outcome_t \<times> rrc) \<Rightarrow> (bool \<Rightarrow> rrc \<Rightarrow> proc_outcome_t \<times> rrc) \<Rightarrow>
     bool \<Rightarrow> rrc \<Rightarrow> proc_outcome_t \<times> rrc" where
  "cell_selection_proc_react step_cell_selection step_serv_cell_camp event r =
     (case cell_sel_state r of
        cell_selection \<Rightarrow> step_cell_selection event r
      | serv_cell_camp \<Rightarrow> step_serv_cell_camp event r
      | cell_search \<Rightarrow> (yield, r)
      | cell_config \<Rightarrow> (yield, log_warning r))"

definition go_idle_proc_react :: "bool \<Rightarrow> rrc \<Rightarrow> proc_outcome_t \<times> rrc" where
  "go_idle_proc_react timeout r = (success, do_call RRC_leave_connected r)"

subsection \<open>An example state\<close>

text \<open>
  A UE camping in idle mode on a cell whose SIB1 schedules SIB2 every 8 frames and SIB3
  every 512 frames, in the second entry of the scheduling list. No procedure runs.
\<close>

definition example_sib1 :: sib_type1_s where
  "example_sib1 =
     \<lparr>sched_info_list =
        [\<lparr>si_periodicity = rf8, sib_map_info = []\<rparr>,
         \<lparr>si_periodicity = rf512, sib_map_info = [3]\<rparr>],
      si_win_len = ms1\<rparr>"

definition example_timer :: "u32 \<Rightarrow> unique_timer" where
  "example_timer i = \<lparr>timer_id = i, duration = 1, running = False, expired = False\<rparr>"

definition example_cell :: cell_t where
  "example_cell =
     \<lparr>pci = 1, earfcn = 2850, rsrp = RSRP_DBM (- 85), sib1 = Some example_sib1,
      has_valid_sib2 = False, has_valid_sib3 = False, has_valid_sib13 = False,
      scheduled_sibs = [1, 2], has_mcch = False\<rparr>"

definition example_recfg :: rrc_conn_recfg_r8_ies_s where
  "example_recfg =
     \<lparr>mob_ctrl_info =
        \<lparr>target_pci = 2, carrier_freq_present = False, dl_carrier_freq = 0,
         t304_number = 1000, new_ue_id = 70, rach_cfg_ded_present = False,
         ra_preamb_idx = 0, ra_prach_mask_idx = 0\<rparr>,
      rr_cfg_ded_present = False,
      security_cfg_ho_present = False,
      security_cfg_ho =
        \<lparr>next_hop_chaining_count = 0, key_change_ind = False,
         security_algorithm_cfg_present = False, ciphering_algorithm = 0,
         integrity_prot_algorithm = 0\<rparr>\<rparr>"

definition example_rrc :: rrc where
  "example_rrc =
     \<lparr>state = RRC_STATE_IDLE,
      current_tti = 0,
      serving_cell = example_cell,
      neighbour_cells = [],
      ue_required_sibs = [0, 1, 2],
      ue_identity = \<lparr>mmec = 1, m_tmsi = 7\<rparr>,
      dedicated_info_nas = None,
      sec_cfg = \<lparr>cipher_algo = 0, integ_algo = 0\<rparr>,
      t300 = example_timer 1,
      t304 = example_timer 2,
      t310 = example_timer 5,
      phy_cell_is_camping = True,
      phy_start_cell_select_ret = True,
      nas_paging_ret = True,
      add_meas_cell_ret = True,
      parse_meas_config_ret = True,
      mac_crnti = 70,
      si_acq =
        \<lparr>sib_index = 0, period = 0, sched_index = 0,
         si_acq_timeout = example_timer 3, si_acq_retry_timer = example_timer 4\<rparr>,
      si_acquirer = \<lparr>busy = False, results = []\<rparr>,
      scc = \<lparr>required_sibs = [], req_idx = 0, si_acquire_fut = None\<rparr>,
      serv_cell_cfg = \<lparr>busy = False, results = []\<rparr>,
      conn_req =
        \<lparr>cr_state = cr_cell_selection, cr_cause = 0, cr_dedicated_info_nas = None,
         cs_ret = no_cell, cr_serv_cfg_fut = None\<rparr>,
      conn_req_proc = \<lparr>busy = False, results = []\<rparr>,
      pcch =
        \<lparr>paging = \<lparr>paging_record_list = [], sys_info_mod_present = False\<rparr>,
         paging_idx = 0, pcch_state = pcch_next_record, pcch_serv_cfg_fut = None\<rparr>,
      ho =
        \<lparr>ho_state = launch_phy_cell_select, recfg_r8 = example_recfg, target_earfcn = 2850,
         ho_src_cell = example_cell, ho_src_rnti = 70\<rparr>,
      cell_srch =
        \<lparr>cell_search_state = phy_cell_search,
         search_result =
           \<lparr>cs_ret_found = CELL_NOT_FOUND, found_cell = \<lparr>phy_pci = 0, phy_earfcn = 0\<rparr>\<rparr>\<rparr>,
      cell_sel_state = cell_selection,
      rrc_log = [],
      calls = []\<rparr>"





text \<open>
  The UE while the connection request procedure waits for T300, with a dedicated NAS
  message stored in the RRC; the timer and the RRC state are given.
\<close>

definition example_wait_t300 :: "unique_timer \<Rightarrow> rrc_state_t \<Rightarrow> rrc" where
  "example_wait_t300 t st =
     example_rrc
       \<lparr>state := st, t300 := t, dedicated_info_nas := Some [3],
        conn_req := (conn_req example_rrc)\<lparr>cr_state := cr_wait_t300\<rparr>,
        conn_req_proc := \<lparr>busy = True, results = [res_pending]\<rparr>\<rparr>"

text \<open>
  A paging message with one record, for another UE, with or without the notification of
  a system information modification.
\<close>

definition example_paging :: "bool \<Rightarrow> paging_s" where
  "example_paging sys_info_mod =
     \<lparr>paging_record_list = [\<lparr>ue_id_s_tmsi = \<lparr>mmec = 9, m_tmsi = 9\<rparr>\<rparr>],
      sys_info_mod_present = sys_info_mod\<rparr>"

text \<open>
  The UE in connected mode with a handover to the neighbour cell of PCI 2 at hand, and
  the same UE after \<open>step\<close> has reset the stack and asked the PHY to select the target
  cell.
\<close>

definition example_ho :: rrc where
  "example_ho =
     example_rrc
       \<lparr>state := RRC_STATE_CONNECTED,
        neighbour_cells := [example_cell\<lparr>pci := 2, sib1 := None\<rparr>]\<rparr>"

definition example_ho_selecting :: rrc where
  "example_ho_selecting =
     (do_calls
        [PDCP_reestablish, RLC_reestablish, MAC_wait_uplink, MAC_clear_rntis, MAC_reset, PHY_reset,
         MAC_set_ho_rnti 70 2, RRC_apply_rr_config_common True, PHY_start_cell_select 2850 2]
        example_ho)
       \<lparr>ho := (ho example_ho)\<lparr>ho_state := wait_phy_cell_select_complete\<rparr>\<rparr>"

text \<open>
  The UE with the cell search procedure waiting for a measurement, the cell selection
  procedure configuring the serving cell and the connection request procedure waiting
  for T300.
\<close>

definition example_unexpected :: rrc where
  "example_unexpected =
     example_rrc
       \<lparr>cell_srch := (cell_srch example_rrc)\<lparr>cell_search_state := wait_measurement\<rparr>,
        cell_sel_state := cell_config,
        conn_req := (conn_req example_rrc)\<lparr>cr_state := cr_wait_t300\<rparr>\<rparr>"

section \<open>Properties of the SI scheduling arithmetic\<close>

lemma unat_sib1_start:
  fixes tti :: u32
  assumes "tti < 10240"
  shows "unat ((20 * (1 + tti div 20) + 5) mod 10240) =
         (20 * (1 + unat tti div 20) + 5) mod 10240"
proof -
  have a: "unat tti < 10240"
    using assms by (simp add: word_less_nat_alt)
  have b: "unat (tti div 20) = unat tti div 20"
    by (simp add: unat_div)
  have c: "unat (1 + tti div 20) = 1 + unat tti div 20"
    using a b by (simp add: unat_word_ariths)
  have d: "unat (20 * (1 + tti div 20)) = 20 * (1 + unat tti div 20)"
    using a c by (simp add: unat_word_ariths)
  have e: "unat (20 * (1 + tti div 20) + 5) = 20 * (1 + unat tti div 20) + 5"
    using a d by (simp add: unat_word_ariths)
  show ?thesis
    using e by (simp add: unat_mod)
qed

lemma sib1_start_mod_20:
  fixes tti :: u32
  assumes "tti < 10240"
  shows "((20 * (1 + tti div 20) + 5) mod 10240) mod 20 = 5"
proof -
  let ?s = "(20 * (1 + tti div 20) + 5) mod 10240 :: u32"
  have "unat (?s mod 20) = unat ?s mod 20"
    by (simp add: unat_mod)
  also have "\<dots> = ((20 * (1 + unat tti div 20) + 5) mod 10240) mod 20"
    using unat_sib1_start [OF assms] by simp
  also have "\<dots> = (20 * (1 + unat tti div 20) + 5) mod 20"
    by (rule mod_mod_cancel) simp
  also have "\<dots> = 5"
    by simp
  finally have "unat (?s mod 20) = unat (5 :: u32)"
    by simp
  then show ?thesis
    by (simp only: word_unat_eq_iff)
qed

text \<open>
  C7. For a TTI below 10240, \<open>compute_si_window\<close> called for SIB1 (index 0) returns a
  window of length 1 that starts in subframe 5 of an even frame (\<open>start mod 20 = 5\<close>),
  whatever \<open>n\<close>, \<open>T\<close> and \<open>sib1\<close> are: two calls that differ only in these
  arguments return the same window.
\<close>

theorem compute_si_window_sib1:
  assumes "tti < 10240"
  shows "\<exists>start. compute_si_window tti 0 n T s1 = Some (start, 1) \<and> start mod 20 = 5 \<and>
           compute_si_window tti 0 n' T' s1' = Some (start, 1)"
  using sib1_start_mod_20 [OF assms]
  by (simp add: compute_si_window_def sib_start_tti_def)

theorem compute_si_window_sib1_witness:
  "(4321 :: u32) < 10240 \<and>
   (\<exists>start. compute_si_window 4321 0 3 64 None = Some (start, 1) \<and> start mod 20 = 5 \<and>
      compute_si_window 4321 0 0 20
        (Some \<lparr>sched_info_list = [], si_win_len = ms10\<rparr>) = Some (start, 1))"
  using compute_si_window_sib1 [of 4321 3 64 None 0 20
      "Some \<lparr>sched_info_list = [], si_win_len = ms10\<rparr>"]
  by simp

text \<open>
  C2. The start TTI that \<open>sib_start_tti\<close> returns is below 10240, but it does not
  always compare later than the current TTI. In the example cell SIB3 has the
  periodicity 512 and the scheduling index 1; with a window length of 1, at TTI 0 the
  next window starts at TTI 5121, more than 5120 subframes ahead, and the wrap-aware
  comparison takes it for a TTI in the past.
\<close>

theorem sib_start_tti_rf512_compares_earlier:
  "compute_si_periodicity_and_idx 2 (Some example_sib1) = Some (512, 1) \<and>
   compute_si_window 0 2 1 512 (Some example_sib1) = Some (5121, 1) \<and>
   sib_start_tti 0 512 0 1 = Some 5121 \<and> tti_less 5121 0"
  by (simp add: compute_si_periodicity_and_idx_def compute_si_window_def sib_start_tti_def
      tti_less_def tti_sub_def example_sib1_def)

lemma unat_add_no_wrap:
  fixes x y :: u32
  assumes "unat x + unat y < 4294967296"
  shows "unat (x + y) = unat x + unat y"
  using assms unat_add_lem [of x y] by simp

lemma unat_mult_no_wrap:
  fixes x y :: u32
  assumes "unat x * unat y < 4294967296"
  shows "unat (x * y) = unat x * unat y"
  using assms unat_mult_lem [of x y] by simp

lemma unat_sib_start:
  fixes tti T offset a :: u32
  assumes T: "0 < unat T" "unat T \<le> 512"
      and tti: "unat tti < 10240"
      and off: "unat offset \<le> 124"
      and a: "unat a < 10"
  shows "T * 10 \<noteq> 0 \<and>
         unat ((T * 10 * (1 + tti div (T * 10)) + offset * 10 + a) mod 10240) =
         (unat T * 10 * (1 + unat tti div (unat T * 10)) + unat offset * 10 + unat a) mod 10240"
proof -
  let ?P = "unat T * 10"
  define P where "P = T * 10"
  define q where "q = tti div P"
  define A where "A = P * (1 + q)"
  define B where "B = offset * 10"
  have p: "unat P = ?P"
    unfolding P_def using T by (intro unat_mult_no_wrap [THEN trans]) simp_all
  have pn: "P \<noteq> 0"
    using p T by (metis mult_eq_0_iff less_numeral_extra(3) unat_0 zero_neq_numeral)
  have uq: "unat q = unat tti div ?P"
    unfolding q_def by (simp only: unat_div p)
  have qb: "unat q \<le> unat tti"
    unfolding uq by (rule div_le_dividend)
  have e: "unat (1 + q) = 1 + unat q"
    using qb tti by (intro unat_add_no_wrap [THEN trans]) simp_all
  have ml: "?P * unat q \<le> unat tti"
    unfolding uq by simp
  have fb: "?P * (1 + unat q) \<le> 5120 + unat tti"
  proof -
    have "?P * (1 + unat q) = ?P + ?P * unat q"
      by (simp add: algebra_simps)
    also have "\<dots> \<le> 5120 + unat tti"
      using ml T by (intro add_mono) auto
    finally show ?thesis .
  qed
  have f: "unat A = ?P * (1 + unat q)"
  proof -
    have eq: "unat P * unat (1 + q) = ?P * (1 + unat q)"
      by (simp only: p e)
    then have "unat P * unat (1 + q) < 4294967296"
      using fb tti by linarith
    then have "unat (P * (1 + q)) = unat P * unat (1 + q)"
      by (rule unat_mult_no_wrap)
    then show ?thesis
      using eq by (simp only: A_def)
  qed
  have g: "unat B = unat offset * 10"
  proof -
    have "unat offset * unat (10 :: u32) < 4294967296"
      using off by simp
    then have "unat (offset * 10) = unat offset * unat (10 :: u32)"
      by (rule unat_mult_no_wrap)
    then show ?thesis
      by (simp add: B_def)
  qed
  have ab: "unat A + unat B \<le> 5120 + unat tti + 1240"
    using fb off unfolding f g by linarith
  have h: "unat (A + B) = unat A + unat B"
    using ab tti by (intro unat_add_no_wrap) linarith
  have i: "unat (A + B + a) = unat A + unat B + unat a"
  proof -
    have "unat (A + B) + unat a < 4294967296"
      using ab tti a unfolding h by linarith
    then have "unat (A + B + a) = unat (A + B) + unat a"
      by (rule unat_add_no_wrap)
    then show ?thesis
      by (simp only: h)
  qed
  have k: "unat ((A + B + a) mod 10240) =
      (?P * (1 + unat tti div ?P) + unat offset * 10 + unat a) mod 10240"
    unfolding unat_mod i f g uq by simp
  show ?thesis
    using pn [unfolded P_def] k [unfolded A_def B_def q_def P_def] by (rule conjI)
qed


lemma wrap_sub_neg:
  fixes x y :: nat
  assumes "x < y \<and> y \<le> x + 5119 \<or> y + 5120 < x \<and> x < y + 10240"
  shows "(let diff = int x - int y
          in if diff > 5120 then diff - 10240
             else if diff < -5119 then diff + 10240
             else diff) < 0"
  using assms by (auto simp: Let_def)

lemma tti_less_unat:
  assumes "unat a < unat b \<and> unat b \<le> unat a + 5119 \<or>
           unat b + 5120 < unat a \<and> unat a < unat b + 10240"
  shows "tti_less a b"
  unfolding tti_less_def tti_sub_def using assms by (rule wrap_sub_neg)

lemma sib_start_tti_range:
  "sib_start_tti tti T offset a = Some s \<Longrightarrow> s < 10240"
  by (auto simp: sib_start_tti_def word_less_nat_alt unat_mod split: if_splits)

text \<open>
  For a periodicity of at most 256 frames the start TTI does compare later than the
  current TTI (the window is less than 5120 subframes ahead); here \<open>offset\<close> and \<open>a\<close>
  are bounded as for a scheduling index below 32 and a window length of at most 40.
\<close>

lemma sib_start_tti_later_up_to_rf256:
  fixes tti T offset a :: u32
  assumes "0 < T" "T \<le> 256" "tti < 10240" "offset \<le> 124" "a < 10"
  shows "\<exists>s. sib_start_tti tti T offset a = Some s \<and> s < 10240 \<and> tti_less tti s"
proof -
  let ?P = "unat T * 10"
  let ?v = "?P * (1 + unat tti div ?P) + unat offset * 10 + unat a"
  let ?s = "(T * 10 * (1 + tti div (T * 10)) + offset * 10 + a) mod 10240"
  have T: "0 < unat T" "unat T \<le> 256"
    using assms(1,2) by (simp_all add: word_less_nat_alt word_le_nat_alt)
  have tti: "unat tti < 10240"
    using assms(3) by (simp add: word_less_nat_alt)
  have off: "unat offset \<le> 124"
    using assms(4) by (simp add: word_le_nat_alt)
  have a: "unat a < 10"
    using assms(5) by (simp add: word_less_nat_alt)
  have u: "T * 10 \<noteq> 0 \<and> unat ?s = ?v mod 10240"
    using T tti off a by (intro unat_sib_start) simp_all
  have P: "0 < ?P" "?P \<le> 2560"
    using T by simp_all
  have lo: "unat tti < ?P * (1 + unat tti div ?P)"
    using dividend_less_times_div [OF P(1), of "unat tti"] by (simp add: algebra_simps)
  have "?P * (unat tti div ?P) \<le> unat tti"
    by simp
  then have hi: "?P * (1 + unat tti div ?P) \<le> unat tti + 2560"
    using P(2) by (simp add: algebra_simps)
  have v: "unat tti < ?v" "?v \<le> unat tti + 3809"
    using lo hi off a by linarith+
  have s: "sib_start_tti tti T offset a = Some ?s"
    using u by (simp add: sib_start_tti_def)
  have r: "?s < 10240"
    by (simp add: word_less_nat_alt unat_mod)
  have "tti_less tti ?s"
  proof (cases "?v < 10240")
    case True
    then have "unat ?s = ?v" using u by simp
    then show ?thesis
      using v by (intro tti_less_unat) linarith
  next
    case False
    then have "?v mod 10240 = ?v - 10240"
      using v tti by (simp add: mod_if)
    then have "unat ?s = ?v - 10240" using u by simp
    then show ?thesis
      using v tti False by (intro tti_less_unat) linarith
  qed
  then show ?thesis
    using s r by simp
qed

section \<open>Properties of the SI acquisition procedure\<close>

lemma start_si_acquire_si_acquirer:
  "si_acquire_proc_start_si_acquire r = Some r' \<Longrightarrow> si_acquirer r' = si_acquirer r"
  by (auto simp: si_acquire_proc_start_si_acquire_def log_error_def do_call_def Let_def
      split: option.splits if_splits prod.splits)

lemma init_si_acquirer:
  "si_acquire_proc_init sb r = Some (oc, r') \<Longrightarrow> si_acquirer r' = si_acquirer r"
  by (auto simp: si_acquire_proc_init_def log_error_def Let_def
      dest!: start_si_acquire_si_acquirer
      split: option.splits if_splits prod.splits)

lemma then_stops:
  "\<not> running (si_acq_retry_timer (si_acq (si_acquire_proc_then ok r)))"
  "\<not> running (si_acq_timeout (si_acq (si_acquire_proc_then ok r)))"
  by (simp_all add: si_acquire_proc_then_def timer_stop_def log_error_def Let_def)

lemma handle_outcome_stops:
  "oc \<noteq> yield \<Longrightarrow>
     \<not> running (si_acq_retry_timer (si_acq (si_acquirer_handle_outcome oc r))) \<and>
     \<not> running (si_acq_timeout (si_acq (si_acquirer_handle_outcome oc r))) \<and>
     \<not> busy (si_acquirer (si_acquirer_handle_outcome oc r))"
  by (simp add: si_acquirer_handle_outcome_def Let_def then_stops complete_invocation_def)

lemma handle_outcome_yield: "si_acquirer_handle_outcome yield r = r"
  by (simp add: si_acquirer_handle_outcome_def)

lemma react_si_acquirer:
  "si_acquire_proc_react_timer_expired tid r = Some (oc, r') \<Longrightarrow> si_acquirer r' = si_acquirer r"
  "si_acquire_proc_react_sib_received r = Some (oc, r') \<Longrightarrow> si_acquirer r' = si_acquirer r"
  by (auto simp: si_acquire_proc_react_timer_expired_def si_acquire_proc_react_sib_received_def
      log_error_def dest!: start_si_acquire_si_acquirer split: option.splits if_splits)

text \<open>
  C8. The \<open>then\<close> hook of the SI acquisition procedure stops the retry timer and the
  timeout timer, whatever the result. The engine runs the hook on every completion: after
  a launch or a triggered event that leaves the procedure completed (no longer busy),
  neither timer is running.
\<close>

theorem si_acquire_completion_stops_timers:
  "(\<not> running (si_acq_retry_timer (si_acq (si_acquire_proc_then ok r))) \<and>
    \<not> running (si_acq_timeout (si_acq (si_acquire_proc_then ok r)))) \<and>
   (si_acquirer_launch sb r = Some (True, r1) \<and> \<not> busy (si_acquirer r1) \<longrightarrow>
      \<not> running (si_acq_retry_timer (si_acq r1)) \<and> \<not> running (si_acq_timeout (si_acq r1))) \<and>
   (busy (si_acquirer r) \<and> si_acquirer_trigger ev r = Some r2 \<and> \<not> busy (si_acquirer r2) \<longrightarrow>
      \<not> running (si_acq_retry_timer (si_acq r2)) \<and> \<not> running (si_acq_timeout (si_acq r2)))"
proof (intro conjI impI)
  show "\<not> running (si_acq_retry_timer (si_acq (si_acquire_proc_then ok r)))"
    by (rule then_stops)
  show "\<not> running (si_acq_timeout (si_acq (si_acquire_proc_then ok r)))"
    by (rule then_stops)
next
  assume a: "si_acquirer_launch sb r = Some (True, r1) \<and> \<not> busy (si_acquirer r1)"
  then obtain oc r' where
    i: "si_acquire_proc_init sb (r\<lparr>si_acquirer := start_invocation (si_acquirer r)\<rparr>) = Some (oc, r')"
    and r1: "r1 = si_acquirer_handle_outcome oc r'"
    by (auto simp: si_acquirer_launch_def split: if_splits option.splits)
  have "oc \<noteq> yield"
  proof
    assume "oc = yield"
    then have "si_acquirer r1 = start_invocation (si_acquirer r)"
      using init_si_acquirer [OF i] r1 by (simp add: handle_outcome_yield)
    then show False using a by (simp add: start_invocation_def)
  qed
  then show "\<not> running (si_acq_retry_timer (si_acq r1))" "\<not> running (si_acq_timeout (si_acq r1))"
    using handle_outcome_stops [of oc r'] r1 by simp_all
next
  assume a: "busy (si_acquirer r) \<and> si_acquirer_trigger ev r = Some r2 \<and> \<not> busy (si_acquirer r2)"
  then obtain oc r' where
    i: "(case ev of sib_received_ev \<Rightarrow> si_acquire_proc_react_sib_received r
          | si_acq_timer_expired tid \<Rightarrow> si_acquire_proc_react_timer_expired tid r) = Some (oc, r')"
    and r2: "r2 = si_acquirer_handle_outcome oc r'"
    by (auto simp: si_acquirer_trigger_def split: if_splits option.splits)
  have "si_acquirer r' = si_acquirer r"
    using i react_si_acquirer by (cases ev) auto
  then have "oc \<noteq> yield"
    using a r2 by (auto simp: handle_outcome_yield)
  then show "\<not> running (si_acq_retry_timer (si_acq r2))" "\<not> running (si_acq_timeout (si_acq r2))"
    using handle_outcome_stops [of oc r'] r2 by simp_all
qed


lemmas si_defs =
  si_acquirer_launch_def si_acquirer_trigger_def si_acquirer_handle_outcome_def
  si_acquire_proc_init_def si_acquire_proc_then_def si_acquire_proc_start_si_acquire_def
  si_acquire_proc_react_sib_received_def si_acquire_proc_react_timer_expired_def
  si_acq_retry_timer_expires_def si_acq_timeout_expires_def
  start_invocation_def complete_invocation_def
  timer_run_def timer_stop_def timer_set_def timer_expire_def
  has_sib_def has_sib1_def sib1ptr_def is_sib_scheduled_def
  compute_si_periodicity_and_idx_def compute_si_window_def sib_start_tti_def
  sib1_periodicity_def tti_less_def tti_sub_def tti_point_def
  log_error_def log_warning_def do_call_def

lemmas example_defs =
  example_rrc_def example_cell_def example_sib1_def example_timer_def example_recfg_def

theorem si_acquire_completion_stops_timers_witness:
  "si_acquirer_launch 0
     (example_rrc\<lparr>si_acq := (si_acq example_rrc)\<lparr>si_acq_timeout := timer_run (example_timer 3),
        si_acq_retry_timer := timer_run (example_timer 4)\<rparr>\<rparr>) =
   Some (True, snd (the (si_acquirer_launch 0
     (example_rrc\<lparr>si_acq := (si_acq example_rrc)\<lparr>si_acq_timeout := timer_run (example_timer 3),
        si_acq_retry_timer := timer_run (example_timer 4)\<rparr>\<rparr>)))) \<and>
   \<not> busy (si_acquirer (snd (the (si_acquirer_launch 0
     (example_rrc\<lparr>si_acq := (si_acq example_rrc)\<lparr>si_acq_timeout := timer_run (example_timer 3),
        si_acq_retry_timer := timer_run (example_timer 4)\<rparr>\<rparr>))))) \<and>
   \<not> running (si_acq_retry_timer (si_acq (snd (the (si_acquirer_launch 0
     (example_rrc\<lparr>si_acq := (si_acq example_rrc)\<lparr>si_acq_timeout := timer_run (example_timer 3),
        si_acq_retry_timer := timer_run (example_timer 4)\<rparr>\<rparr>)))))) \<and>
   \<not> running (si_acq_timeout (si_acq (snd (the (si_acquirer_launch 0
     (example_rrc\<lparr>si_acq := (si_acq example_rrc)\<lparr>si_acq_timeout := timer_run (example_timer 3),
        si_acq_retry_timer := timer_run (example_timer 4)\<rparr>\<rparr>))))))"
proof -
  let ?r = "example_rrc\<lparr>si_acq := (si_acq example_rrc)\<lparr>si_acq_timeout := timer_run (example_timer 3),
        si_acq_retry_timer := timer_run (example_timer 4)\<rparr>\<rparr>"
  let ?r1 = "snd (the (si_acquirer_launch 0 ?r))"
  have l: "si_acquirer_launch 0 ?r = Some (True, ?r1)"
    by (simp add: si_defs example_defs)
  have b: "\<not> busy (si_acquirer ?r1)"
    by (simp add: si_defs example_defs)
  show ?thesis
    using si_acquire_completion_stops_timers [of True ?r 0 ?r1 sib_received_ev ?r] l b
    by blast
qed



















section \<open>Properties of the serving cell configuration procedure\<close>

declare serving_cell_config_proc_launch_sib_acquire.simps [simp del]

lemma start_si_acquire_frame:
  "si_acquire_proc_start_si_acquire r = Some r' \<Longrightarrow>
     scc r' = scc r \<and> serv_cell_cfg r' = serv_cell_cfg r \<and> serving_cell r' = serving_cell r"
  by (auto simp: si_acquire_proc_start_si_acquire_def log_error_def do_call_def Let_def
      split: option.splits if_splits prod.splits)

lemma init_frame:
  "si_acquire_proc_init sb r = Some (oc, r') \<Longrightarrow>
     scc r' = scc r \<and> serv_cell_cfg r' = serv_cell_cfg r \<and> serving_cell r' = serving_cell r"
  by (auto simp: si_acquire_proc_init_def log_error_def Let_def
      dest!: start_si_acquire_frame
      split: option.splits if_splits prod.splits)

lemma handle_outcome_frame:
  "scc (si_acquirer_handle_outcome oc r) = scc r \<and>
   serv_cell_cfg (si_acquirer_handle_outcome oc r) = serv_cell_cfg r \<and>
   serving_cell (si_acquirer_handle_outcome oc r) = serving_cell r"
  by (simp add: si_acquirer_handle_outcome_def si_acquire_proc_then_def log_error_def Let_def)

lemma si_acquirer_launch_frame:
  "si_acquirer_launch sb r = Some (b, r') \<Longrightarrow>
     scc r' = scc r \<and> serv_cell_cfg r' = serv_cell_cfg r \<and> serving_cell r' = serving_cell r"
  by (auto simp: si_acquirer_launch_def handle_outcome_frame dest!: init_frame
      split: option.splits if_splits)

lemma launch_sib_acquire_inv:
  "serving_cell_config_proc_launch_sib_acquire r = Some (oc, r') \<Longrightarrow>
     required_sibs (scc r') = required_sibs (scc r) \<and>
     serv_cell_cfg r' = serv_cell_cfg r \<and>
     req_idx (scc r) \<le> req_idx (scc r') \<and>
     (oc = success \<longrightarrow> length (required_sibs (scc r')) \<le> req_idx (scc r')) \<and>
     (oc \<noteq> success \<longrightarrow> req_idx (scc r') < length (required_sibs (scc r'))) \<and>
     (req_idx (scc r) \<le> length (required_sibs (scc r)) \<longrightarrow>
        req_idx (scc r') \<le> length (required_sibs (scc r')))"
proof (induction r rule: serving_cell_config_proc_launch_sib_acquire.induct)
  case (1 r)
  let ?sib = "required_sibs (scc r) ! req_idx (scc r)"
  show ?case
  proof (cases "req_idx (scc r) < length (required_sibs (scc r))")
    case False
    then show ?thesis
      using "1.prems" by (subst (asm) serving_cell_config_proc_launch_sib_acquire.simps) auto
  next
    case inb: True
    show ?thesis
    proof (cases "has_sib (serving_cell r) ?sib")
      case True
      let ?r1 = "if ?sib = 1 then do_call RRC_handle_sib2 r
                 else if ?sib = 12 then do_call RRC_handle_sib13 r else r"
      have scc1: "scc ?r1 = scc r" "serv_cell_cfg ?r1 = serv_cell_cfg r"
        by (simp_all add: do_call_def)
      have "serving_cell_config_proc_launch_sib_acquire
              (?r1\<lparr>scc := (scc ?r1)\<lparr>req_idx := req_idx (scc ?r1) + 1\<rparr>\<rparr>) = Some (oc, r')"
        using "1.prems" inb True
        by (subst (asm) serving_cell_config_proc_launch_sib_acquire.simps) (simp add: Let_def)
      from "1.IH"(2) [OF inb refl _ refl this] True
      show ?thesis using scc1 inb by (auto split: if_splits)
    next
      case nohas: False
      show ?thesis
      proof (cases "?sib < 2 \<or> is_sib_scheduled (serving_cell r) ?sib")
        case False
        have "serving_cell_config_proc_launch_sib_acquire
                (r\<lparr>scc := (scc r)\<lparr>req_idx := req_idx (scc r) + 1\<rparr>\<rparr>) = Some (oc, r')"
          using "1.prems" inb nohas False
          by (subst (asm) serving_cell_config_proc_launch_sib_acquire.simps) (simp add: Let_def)
        from "1.IH"(1) [OF inb refl nohas False this] inb
        show ?thesis by auto
      next
        case True
        then obtain launched r1 where
          l: "si_acquirer_launch ?sib r = Some (launched, r1)"
          and res: "(oc, r') = (if \<not> launched then (error, log_error r1)
              else (yield, r1\<lparr>scc := (scc r1)\<lparr>si_acquire_fut := get_future (si_acquirer r1)\<rparr>\<rparr>))"
          using "1.prems" inb nohas
          by (subst (asm) serving_cell_config_proc_launch_sib_acquire.simps)
             (auto simp: Let_def split: option.splits if_splits)
        from si_acquirer_launch_frame [OF l] res inb
        show ?thesis by (auto simp: log_error_def split: if_splits)
      qed
    qed
  qed
qed


lemma serv_cell_cfg_handle_outcome_busy:
  "busy (serv_cell_cfg (serv_cell_cfg_handle_outcome oc r)) \<Longrightarrow>
     oc = yield \<and> serv_cell_cfg_handle_outcome oc r = r"
  by (auto simp: serv_cell_cfg_handle_outcome_def complete_invocation_def split: if_splits)

text \<open>
  C9. In every state that the serving cell configuration procedure reaches, while the
  procedure runs, \<open>req_idx\<close> is below the size of \<open>required_sibs\<close>: the read
  \<open>required_sibs[req_idx]\<close> of \<open>step\<close>, which the engine calls only on a running
  procedure, is in bounds.
\<close>

theorem serving_cell_config_req_idx_in_bounds:
  assumes "serv_cell_cfg_reachable r" and "busy (serv_cell_cfg r)"
  shows "req_idx (scc r) < length (required_sibs (scc r))"
  using assms
proof (induction rule: serv_cell_cfg_reachable.induct)
  case (launched r0 sibs r)
  let ?r0 = "r0\<lparr>serv_cell_cfg := start_invocation (serv_cell_cfg r0)\<rparr>"
  from launched obtain oc r1 where
    i: "serving_cell_config_proc_init sibs ?r0 = Some (oc, r1)"
    and r: "r = serv_cell_cfg_handle_outcome oc r1"
    by (auto simp: serv_cell_cfg_launch_def split: option.splits)
  from r launched.prems have y: "oc = yield" and rr: "r = r1"
    using serv_cell_cfg_handle_outcome_busy [of oc r1] by auto
  from i y obtain r3 where
    "serving_cell_config_proc_launch_sib_acquire r3 = Some (yield, r1)"
    by (auto simp: serving_cell_config_proc_init_def Let_def split: if_splits)
  from launch_sib_acquire_inv [OF this] rr show ?case by auto
next
  case (run r b r')
  show ?case
  proof (cases "busy (serv_cell_cfg r)")
    case False
    with run show ?thesis by (simp add: serv_cell_cfg_run_def)
  next
    case True
    with run obtain oc r1 where
      st: "serving_cell_config_proc_step r = Some (oc, r1)"
      and r': "r' = serv_cell_cfg_handle_outcome oc r1"
      by (auto simp: serv_cell_cfg_run_def Let_def split: option.splits)
    from r' run.prems have y: "oc = yield" and rr: "r' = r1"
      using serv_cell_cfg_handle_outcome_busy [of oc r1] by auto
    from st y have "r1 = r \<or> (\<exists>r2. serving_cell_config_proc_launch_sib_acquire r2 = Some (yield, r1))"
      by (auto simp: serving_cell_config_proc_step_def Let_def split: if_splits)
    then show ?thesis
    proof
      assume "r1 = r"
      with run.IH True rr show ?thesis by simp
    next
      assume "\<exists>r2. serving_cell_config_proc_launch_sib_acquire r2 = Some (yield, r1)"
      then obtain r2 where "serving_cell_config_proc_launch_sib_acquire r2 = Some (yield, r1)" ..
      from launch_sib_acquire_inv [OF this] rr show ?thesis by auto
    qed
  qed
next
  case (others r r')
  then show ?case by simp
qed

lemmas scc_defs =
  serving_cell_config_proc_launch_sib_acquire.simps
  serving_cell_config_proc_init_def serving_cell_config_proc_step_def
  serv_cell_cfg_handle_outcome_def serv_cell_cfg_launch_def serv_cell_cfg_run_def
  get_future_def fut_result_def is_complete_def is_error_def is_success_def

lemma serv_cell_cfg_launch_example:
  "serv_cell_cfg_launch [0, 1, 2] example_rrc =
     Some (True, snd (the (serv_cell_cfg_launch [0, 1, 2] example_rrc)))"
  by (simp add: scc_defs si_defs example_defs Let_def)

theorem serving_cell_config_req_idx_in_bounds_witness:
  "serv_cell_cfg_reachable (snd (the (serv_cell_cfg_launch [0, 1, 2] example_rrc))) \<and>
   busy (serv_cell_cfg (snd (the (serv_cell_cfg_launch [0, 1, 2] example_rrc)))) \<and>
   req_idx (scc (snd (the (serv_cell_cfg_launch [0, 1, 2] example_rrc)))) = 1 \<and>
   req_idx (scc (snd (the (serv_cell_cfg_launch [0, 1, 2] example_rrc)))) <
     length (required_sibs (scc (snd (the (serv_cell_cfg_launch [0, 1, 2] example_rrc)))))"
proof -
  let ?r = "snd (the (serv_cell_cfg_launch [0, 1, 2] example_rrc))"
  have nb: "\<not> busy (serv_cell_cfg example_rrc)"
    by (simp add: example_defs)
  have re: "serv_cell_cfg_reachable ?r"
    by (rule serv_cell_cfg_reachable.launched [OF nb serv_cell_cfg_launch_example])
  have b: "busy (serv_cell_cfg ?r)"
    by (simp add: scc_defs si_defs example_defs Let_def)
  have i: "req_idx (scc ?r) = 1"
    by (simp add: scc_defs si_defs example_defs Let_def)
  show ?thesis
    using serving_cell_config_req_idx_in_bounds [OF re b] re b i by simp
qed







declare connection_request_proc_step.simps [simp del]
declare process_pcch_proc_step.simps [simp del]

section \<open>Properties of the connection request procedure\<close>

text \<open>
  C4. In the state \<open>wait_t300\<close> the step function of the connection request
  procedure yields while T300 runs. Once T300 does not run: in the connected state the
  procedure succeeds; when T300 has expired, MAC is reset (and set to its defaults), RLC is
  reestablished and the outcome is error; when T300 was stopped otherwise (a reject), MAC
  is reset (and set to its defaults) and the outcome is error. The \<open>then\<close> hook for an
  error drops the dedicated NAS message, in the procedure and in the RRC, and tells NAS
  \<open>connection_request_completed(false)\<close>; the engine runs it on every error outcome.
\<close>

theorem connection_request_wait_t300:
  assumes "cr_state (conn_req r) = cr_wait_t300"
  shows "(running (t300 r) \<longrightarrow> connection_request_proc_step r = Some (yield, r)) \<and>
   (\<not> running (t300 r) \<and> state r = RRC_STATE_CONNECTED \<longrightarrow>
      connection_request_proc_step r = Some (success, r)) \<and>
   (\<not> running (t300 r) \<and> state r \<noteq> RRC_STATE_CONNECTED \<and> expired (t300 r) \<longrightarrow>
      connection_request_proc_step r =
        Some (error, do_calls [MAC_reset, RRC_set_mac_default, RLC_reestablish] (log_warning r))) \<and>
   (\<not> running (t300 r) \<and> state r \<noteq> RRC_STATE_CONNECTED \<and> \<not> expired (t300 r) \<longrightarrow>
      connection_request_proc_step r =
        Some (error, do_calls [MAC_reset, RRC_set_mac_default] (log_warning r))) \<and>
   (dedicated_info_nas (connection_request_proc_then False r1) = None \<and>
    cr_dedicated_info_nas (conn_req (connection_request_proc_then False r1)) = None \<and>
    calls (connection_request_proc_then False r1) =
      calls r1 @ [NAS_connection_request_completed False]) \<and>
   (busy (conn_req_proc r) \<and> connection_request_proc_step r = Some (error, r1) \<longrightarrow>
      (\<exists>r2. conn_req_proc_run r = Some (False, r2) \<and>
         dedicated_info_nas r2 = None \<and> cr_dedicated_info_nas (conn_req r2) = None \<and>
         calls r2 = calls r1 @ [NAS_connection_request_completed False]))"
proof (intro conjI impI)
  show "running (t300 r) \<Longrightarrow> connection_request_proc_step r = Some (yield, r)"
    using assms by (subst connection_request_proc_step.simps) simp
  show "\<not> running (t300 r) \<and> state r = RRC_STATE_CONNECTED \<Longrightarrow>
      connection_request_proc_step r = Some (success, r)"
    using assms by (subst connection_request_proc_step.simps) simp
  show "\<not> running (t300 r) \<and> state r \<noteq> RRC_STATE_CONNECTED \<and> expired (t300 r) \<Longrightarrow>
      connection_request_proc_step r =
        Some (error, do_calls [MAC_reset, RRC_set_mac_default, RLC_reestablish] (log_warning r))"
    using assms
    by (subst connection_request_proc_step.simps) (simp add: do_call_def do_calls_def)
  show "\<not> running (t300 r) \<and> state r \<noteq> RRC_STATE_CONNECTED \<and> \<not> expired (t300 r) \<Longrightarrow>
      connection_request_proc_step r =
        Some (error, do_calls [MAC_reset, RRC_set_mac_default] (log_warning r))"
    using assms
    by (subst connection_request_proc_step.simps) (simp add: do_call_def do_calls_def)
  show "dedicated_info_nas (connection_request_proc_then False r1) = None"
    "cr_dedicated_info_nas (conn_req (connection_request_proc_then False r1)) = None"
    "calls (connection_request_proc_then False r1) =
      calls r1 @ [NAS_connection_request_completed False]"
    by (simp_all add: connection_request_proc_then_def do_call_def log_warning_def)
  show "busy (conn_req_proc r) \<and> connection_request_proc_step r = Some (error, r1) \<Longrightarrow>
      (\<exists>r2. conn_req_proc_run r = Some (False, r2) \<and>
         dedicated_info_nas r2 = None \<and> cr_dedicated_info_nas (conn_req r2) = None \<and>
         calls r2 = calls r1 @ [NAS_connection_request_completed False])"
    by (simp add: conn_req_proc_run_def conn_req_proc_handle_outcome_def
        connection_request_proc_then_def complete_invocation_def do_call_def log_warning_def)
qed


theorem connection_request_wait_t300_witness:
  "cr_state (conn_req (example_wait_t300 (timer_run (example_timer 1)) RRC_STATE_IDLE)) = cr_wait_t300 \<and>
   running (t300 (example_wait_t300 (timer_run (example_timer 1)) RRC_STATE_IDLE)) \<and>
   connection_request_proc_step (example_wait_t300 (timer_run (example_timer 1)) RRC_STATE_IDLE) =
     Some (yield, example_wait_t300 (timer_run (example_timer 1)) RRC_STATE_IDLE) \<and>
   connection_request_proc_step (example_wait_t300 (timer_stop (example_timer 1)) RRC_STATE_CONNECTED) =
     Some (success, example_wait_t300 (timer_stop (example_timer 1)) RRC_STATE_CONNECTED) \<and>
   expired (t300 (example_wait_t300 (timer_expire (example_timer 1)) RRC_STATE_IDLE)) \<and>
   connection_request_proc_step (example_wait_t300 (timer_expire (example_timer 1)) RRC_STATE_IDLE) =
     Some (error, do_calls [MAC_reset, RRC_set_mac_default, RLC_reestablish]
       (log_warning (example_wait_t300 (timer_expire (example_timer 1)) RRC_STATE_IDLE))) \<and>
   connection_request_proc_step (example_wait_t300 (timer_stop (example_timer 1)) RRC_STATE_IDLE) =
     Some (error, do_calls [MAC_reset, RRC_set_mac_default]
       (log_warning (example_wait_t300 (timer_stop (example_timer 1)) RRC_STATE_IDLE))) \<and>
   busy (conn_req_proc (example_wait_t300 (timer_expire (example_timer 1)) RRC_STATE_IDLE)) \<and>
   (\<exists>r2. conn_req_proc_run (example_wait_t300 (timer_expire (example_timer 1)) RRC_STATE_IDLE) =
        Some (False, r2) \<and>
      dedicated_info_nas r2 = None \<and> cr_dedicated_info_nas (conn_req r2) = None \<and>
      calls r2 = [MAC_reset, RRC_set_mac_default, RLC_reestablish,
                  NAS_connection_request_completed False])"
proof -
  let ?run = "example_wait_t300 (timer_run (example_timer 1)) RRC_STATE_IDLE"
  let ?con = "example_wait_t300 (timer_stop (example_timer 1)) RRC_STATE_CONNECTED"
  let ?exp = "example_wait_t300 (timer_expire (example_timer 1)) RRC_STATE_IDLE"
  let ?rej = "example_wait_t300 (timer_stop (example_timer 1)) RRC_STATE_IDLE"
  let ?err = "do_calls [MAC_reset, RRC_set_mac_default, RLC_reestablish] (log_warning ?exp)"
  have st: "cr_state (conn_req (example_wait_t300 t s)) = cr_wait_t300" for t s
    by (simp add: example_wait_t300_def)
  have f: "running (t300 ?run)" "\<not> running (t300 ?con)" "state ?con = RRC_STATE_CONNECTED"
    "\<not> running (t300 ?exp)" "state ?exp \<noteq> RRC_STATE_CONNECTED" "expired (t300 ?exp)"
    "\<not> running (t300 ?rej)" "state ?rej \<noteq> RRC_STATE_CONNECTED" "\<not> expired (t300 ?rej)"
    "busy (conn_req_proc ?exp)"
    by (simp_all add: example_wait_t300_def timer_run_def timer_stop_def timer_expire_def
        example_timer_def)
  have c: "calls ?err = [MAC_reset, RRC_set_mac_default, RLC_reestablish]"
    by (simp add: example_wait_t300_def do_calls_def log_warning_def example_defs)
  show ?thesis
    using connection_request_wait_t300 [OF st, of "timer_run (example_timer 1)" RRC_STATE_IDLE ?err]
      connection_request_wait_t300 [OF st, of "timer_stop (example_timer 1)" RRC_STATE_CONNECTED ?err]
      connection_request_wait_t300 [OF st, of "timer_expire (example_timer 1)" RRC_STATE_IDLE ?err]
      connection_request_wait_t300 [OF st, of "timer_stop (example_timer 1)" RRC_STATE_IDLE ?err]
      st f c
    by simp
qed


section \<open>Properties of the paging procedure\<close>

lemma adds_only_iff:
  "adds_only P r r' \<longleftrightarrow> (\<exists>cs. calls r' = calls r @ cs \<and> list_all P cs)"
proof
  assume "adds_only P r r'"
  then have "calls r' = calls r @ added_calls r r' \<and> list_all P (added_calls r r')"
    unfolding adds_only_def added_calls_def
    by (metis append_take_drop_id)
  then show "\<exists>cs. calls r' = calls r @ cs \<and> list_all P cs" by blast
next
  assume "\<exists>cs. calls r' = calls r @ cs \<and> list_all P cs"
  then show "adds_only P r r'"
    by (auto simp: adds_only_def added_calls_def)
qed

lemma adds_only_same: "calls r' = calls r \<Longrightarrow> adds_only P r r'"
  by (simp add: adds_only_iff)

lemma adds_only_trans:
  "adds_only P r r1 \<Longrightarrow> adds_only P r1 r2 \<Longrightarrow> adds_only P r r2"
  by (auto simp: adds_only_iff)

lemma pcch_untouched_refl: "pcch_untouched r r"
  by (simp add: pcch_untouched_def adds_only_same)

lemma pcch_untouched_trans: "pcch_untouched r r1 \<Longrightarrow> pcch_untouched r1 r2 \<Longrightarrow> pcch_untouched r r2"
  by (auto simp: pcch_untouched_def intro: adds_only_trans)

lemma pcch_untouched_same: "calls r' = calls r \<Longrightarrow> pcch r' = pcch r \<Longrightarrow> pcch_untouched r r'"
  by (simp add: pcch_untouched_def adds_only_same)

lemma pcch_untouched_start_si_acquire:
  "si_acquire_proc_start_si_acquire r = Some r' \<Longrightarrow> pcch_untouched r r'"
  by (auto simp: si_acquire_proc_start_si_acquire_def pcch_untouched_def adds_only_iff log_error_def
      do_call_def Let_def is_nas_paging_def split: option.splits if_splits prod.splits)

lemma pcch_untouched_si_init:
  assumes a: "si_acquire_proc_init sb r = Some (oc, r')"
  shows "pcch_untouched r r'"
proof -
  from a consider
    (same) "calls r' = calls r" "pcch r' = pcch r"
  | (started) r2 r3 where "si_acquire_proc_start_si_acquire r2 = Some r3"
      "calls r2 = calls r" "pcch r2 = pcch r" "calls r' = calls r3" "pcch r' = pcch r3"
    by (auto simp: si_acquire_proc_init_def log_error_def Let_def
        split: option.splits if_splits prod.splits)
  then show ?thesis
  proof cases
    case same
    then show ?thesis by (simp add: pcch_untouched_same)
  next
    case started
    from pcch_untouched_start_si_acquire [OF started(1)] started(2-5) show ?thesis
      by (simp add: pcch_untouched_def adds_only_iff)
  qed
qed

lemma pcch_untouched_si_handle_outcome: "pcch_untouched r (si_acquirer_handle_outcome oc r)"
  by (simp add: si_acquirer_handle_outcome_def si_acquire_proc_then_def Let_def log_error_def
      pcch_untouched_same)

lemma pcch_untouched_si_launch:
  "si_acquirer_launch sb r = Some (b, r') \<Longrightarrow> pcch_untouched r r'"
proof -
  assume a: "si_acquirer_launch sb r = Some (b, r')"
  show ?thesis
  proof (cases "busy (si_acquirer r)")
    case True
    with a show ?thesis by (simp add: si_acquirer_launch_def pcch_untouched_refl)
  next
    case False
    let ?r0 = "r\<lparr>si_acquirer := start_invocation (si_acquirer r)\<rparr>"
    from a False obtain oc r1 where i: "si_acquire_proc_init sb ?r0 = Some (oc, r1)"
      and r': "r' = si_acquirer_handle_outcome oc r1"
      by (auto simp: si_acquirer_launch_def split: option.splits)
    have "pcch_untouched r ?r0" by (simp add: pcch_untouched_same)
    from pcch_untouched_trans [OF this pcch_untouched_si_init [OF i]] pcch_untouched_si_handle_outcome [of r1 oc] r'
    show ?thesis by (auto intro: pcch_untouched_trans)
  qed
qed

lemma pcch_untouched_launch_sib_acquire:
  "serving_cell_config_proc_launch_sib_acquire r = Some (oc, r') \<Longrightarrow> pcch_untouched r r'"
proof (induction r rule: serving_cell_config_proc_launch_sib_acquire.induct)
  case (1 r)
  let ?sib = "required_sibs (scc r) ! req_idx (scc r)"
  show ?case
  proof (cases "req_idx (scc r) < length (required_sibs (scc r))")
    case False
    then show ?thesis
      using "1.prems"
      by (subst (asm) serving_cell_config_proc_launch_sib_acquire.simps) (auto simp: pcch_untouched_refl)
  next
    case inb: True
    show ?thesis
    proof (cases "has_sib (serving_cell r) ?sib")
      case True
      let ?r1 = "if ?sib = 1 then do_call RRC_handle_sib2 r
                 else if ?sib = 12 then do_call RRC_handle_sib13 r else r"
      let ?r2 = "?r1\<lparr>scc := (scc ?r1)\<lparr>req_idx := req_idx (scc ?r1) + 1\<rparr>\<rparr>"
      have q: "pcch_untouched r ?r2"
        by (simp add: pcch_untouched_def adds_only_iff do_call_def is_nas_paging_def)
      have "serving_cell_config_proc_launch_sib_acquire ?r2 = Some (oc, r')"
        using "1.prems" inb True
        by (subst (asm) serving_cell_config_proc_launch_sib_acquire.simps) (simp add: Let_def)
      from "1.IH"(2) [OF inb refl _ refl this] True q
      show ?thesis by (auto intro: pcch_untouched_trans)
    next
      case nohas: False
      show ?thesis
      proof (cases "?sib < 2 \<or> is_sib_scheduled (serving_cell r) ?sib")
        case False
        let ?r2 = "r\<lparr>scc := (scc r)\<lparr>req_idx := req_idx (scc r) + 1\<rparr>\<rparr>"
        have q: "pcch_untouched r ?r2" by (simp add: pcch_untouched_same)
        have "serving_cell_config_proc_launch_sib_acquire ?r2 = Some (oc, r')"
          using "1.prems" inb nohas False
          by (subst (asm) serving_cell_config_proc_launch_sib_acquire.simps) (simp add: Let_def)
        from "1.IH"(1) [OF inb refl nohas False this] q
        show ?thesis by (auto intro: pcch_untouched_trans)
      next
        case True
        then obtain launched r1 where
          l: "si_acquirer_launch ?sib r = Some (launched, r1)"
          and res: "(oc, r') = (if \<not> launched then (error, log_error r1)
              else (yield, r1\<lparr>scc := (scc r1)\<lparr>si_acquire_fut := get_future (si_acquirer r1)\<rparr>\<rparr>))"
          using "1.prems" inb nohas
          by (subst (asm) serving_cell_config_proc_launch_sib_acquire.simps)
             (auto simp: Let_def split: option.splits if_splits)
        have "pcch_untouched r1 r'"
          using res by (auto simp: pcch_untouched_same log_error_def split: if_splits)
        with pcch_untouched_si_launch [OF l] show ?thesis by (rule pcch_untouched_trans)
      qed
    qed
  qed
qed

lemma pcch_untouched_scc_init:
  "serving_cell_config_proc_init sibs r = Some (oc, r') \<Longrightarrow> pcch_untouched r r'"
proof -
  assume a: "serving_cell_config_proc_init sibs r = Some (oc, r')"
  then have "(calls r' = calls r \<and> pcch r' = pcch r) \<or>
      (\<exists>r3. calls r3 = calls r \<and> pcch r3 = pcch r \<and>
         serving_cell_config_proc_launch_sib_acquire r3 = Some (oc, r'))"
    by (auto simp: serving_cell_config_proc_init_def Let_def log_error_def split: if_splits)
  then show ?thesis
    by (auto simp: pcch_untouched_same dest!: pcch_untouched_launch_sib_acquire intro: pcch_untouched_trans [OF pcch_untouched_same])
qed

lemma pcch_untouched_scc_step:
  "serving_cell_config_proc_step r = Some (oc, r') \<Longrightarrow> pcch_untouched r r'"
proof -
  assume a: "serving_cell_config_proc_step r = Some (oc, r')"
  then have "(calls r' = calls r \<and> pcch r' = pcch r) \<or>
      (\<exists>r3. calls r3 = calls r \<and> pcch r3 = pcch r \<and>
         serving_cell_config_proc_launch_sib_acquire r3 = Some (oc, r'))"
    by (auto simp: serving_cell_config_proc_step_def Let_def log_warning_def split: if_splits)
  then show ?thesis
    by (auto simp: pcch_untouched_same dest!: pcch_untouched_launch_sib_acquire intro: pcch_untouched_trans [OF pcch_untouched_same])
qed

lemma pcch_untouched_scc_handle_outcome: "pcch_untouched r (serv_cell_cfg_handle_outcome oc r)"
  by (simp add: serv_cell_cfg_handle_outcome_def pcch_untouched_same)

lemma pcch_untouched_serv_cell_cfg_launch:
  "serv_cell_cfg_launch sibs r = Some (b, r') \<Longrightarrow> pcch_untouched r r'"
proof -
  assume a: "serv_cell_cfg_launch sibs r = Some (b, r')"
  show ?thesis
  proof (cases "busy (serv_cell_cfg r)")
    case True
    with a show ?thesis by (simp add: serv_cell_cfg_launch_def pcch_untouched_refl)
  next
    case False
    let ?r0 = "r\<lparr>serv_cell_cfg := start_invocation (serv_cell_cfg r)\<rparr>"
    from a False obtain oc r1 where i: "serving_cell_config_proc_init sibs ?r0 = Some (oc, r1)"
      and r': "r' = serv_cell_cfg_handle_outcome oc r1"
      by (auto simp: serv_cell_cfg_launch_def split: option.splits)
    have "pcch_untouched r ?r0" by (simp add: pcch_untouched_same)
    from pcch_untouched_trans [OF this pcch_untouched_scc_init [OF i]] pcch_untouched_scc_handle_outcome [of r1 oc] r'
    show ?thesis by (auto intro: pcch_untouched_trans)
  qed
qed

lemma pcch_untouched_serv_cell_cfg_run:
  "serv_cell_cfg_run r = Some (b, r') \<Longrightarrow> pcch_untouched r r'"
proof -
  assume a: "serv_cell_cfg_run r = Some (b, r')"
  show ?thesis
  proof (cases "busy (serv_cell_cfg r)")
    case False
    with a show ?thesis by (simp add: serv_cell_cfg_run_def pcch_untouched_refl)
  next
    case True
    from a True obtain oc r1 where i: "serving_cell_config_proc_step r = Some (oc, r1)"
      and r': "r' = serv_cell_cfg_handle_outcome oc r1"
      by (auto simp: serv_cell_cfg_run_def Let_def split: option.splits)
    from pcch_untouched_scc_step [OF i] pcch_untouched_scc_handle_outcome [of r1 oc] r'
    show ?thesis by (auto intro: pcch_untouched_trans)
  qed
qed


lemma pcch_step_serv_cell_cfg:
  assumes "pcch_state (pcch r) = pcch_serv_cell_cfg"
      and "process_pcch_proc_step r = Some (oc, r')"
  shows "pcch_untouched r r'"
proof -
  from assms obtain b r1 where run: "serv_cell_cfg_run r = Some (b, r1)"
    and r': "r' = r1 \<or> r' = log_error r1"
    by (subst (asm) process_pcch_proc_step.simps) (auto split: option.splits if_splits)
  have "pcch_untouched r1 r'"
    using r' by (auto simp: pcch_untouched_same log_error_def)
  with pcch_untouched_serv_cell_cfg_run [OF run] show ?thesis by (rule pcch_untouched_trans)
qed

lemma pcch_step_skip:
  assumes "pcch_state (pcch r) = pcch_next_record"
      and "\<forall>j. paging_idx (pcch r) \<le> j \<and> j < length (paging_record_list (paging (pcch r))) \<longrightarrow>
             \<not> s_tmsi_eq (ue_identity r) (ue_id_s_tmsi (paging_record_list (paging (pcch r)) ! j))"
      and "paging_idx (pcch r) \<le> length (paging_record_list (paging (pcch r)))"
      and "n = length (paging_record_list (paging (pcch r))) - paging_idx (pcch r)"
  shows "process_pcch_proc_step r =
           process_pcch_proc_step (r\<lparr>pcch := (pcch r)\<lparr>paging_idx :=
             length (paging_record_list (paging (pcch r)))\<rparr>\<rparr>)"
  using assms
proof (induction n arbitrary: r)
  case 0
  then have "paging_idx (pcch r) = length (paging_record_list (paging (pcch r)))"
    by simp
  then have "r\<lparr>pcch := (pcch r)\<lparr>paging_idx := length (paging_record_list (paging (pcch r)))\<rparr>\<rparr> = r"
    by simp
  then show ?case by simp
next
  case (Suc n)
  let ?r1 = "r\<lparr>pcch := (pcch r)\<lparr>paging_idx := paging_idx (pcch r) + 1\<rparr>\<rparr>"
  have lt: "paging_idx (pcch r) < length (paging_record_list (paging (pcch r)))"
    using Suc.prems by simp
  then have nm: "\<not> s_tmsi_eq (ue_identity r)
      (ue_id_s_tmsi (paging_record_list (paging (pcch r)) ! paging_idx (pcch r)))"
    using Suc.prems(2) by simp
  have "process_pcch_proc_step ?r1 =
      process_pcch_proc_step (?r1\<lparr>pcch := (pcch ?r1)\<lparr>paging_idx :=
        length (paging_record_list (paging (pcch ?r1)))\<rparr>\<rparr>)"
    using Suc.prems lt by (intro Suc.IH) auto
  moreover have "process_pcch_proc_step r = process_pcch_proc_step ?r1"
    using Suc.prems(1) lt nm by (subst process_pcch_proc_step.simps) (simp add: Let_def)
  ultimately show ?case by simp
qed

lemma pcch_step_after_records:
  assumes "pcch_state (pcch r) = pcch_next_record"
      and "paging_idx (pcch r) = length (paging_record_list (paging (pcch r)))"
      and "process_pcch_proc_step r = Some (oc, r')"
  shows "adds_only (\<lambda>c. \<not> is_nas_paging c) r r' \<and>
         (oc = yield \<longrightarrow> pcch_state (pcch r') = pcch_serv_cell_cfg)"
proof (cases "sys_info_mod_present (paging (pcch r))")
  case False
  with assms have "r' = r"
    by (subst (asm) process_pcch_proc_step.simps) simp
  moreover from False assms have "oc = success"
    by (subst (asm) process_pcch_proc_step.simps) simp
  ultimately show ?thesis by (simp add: adds_only_same)
next
  case True
  let ?r1 = "r\<lparr>serving_cell := reset_sibs (serving_cell r)\<rparr>"
  from True assms obtain launched r2 where
    l: "serv_cell_cfg_launch (ue_required_sibs ?r1) ?r1 = Some (launched, r2)"
    and res: "(\<not> launched \<and> oc = error \<and> r' = log_error r2) \<or>
        (launched \<and> process_pcch_proc_step
           (r2\<lparr>pcch := (pcch r2)\<lparr>pcch_serv_cfg_fut := get_future (serv_cell_cfg r2),
              pcch_state := pcch_serv_cell_cfg\<rparr>\<rparr>) = Some (oc, r'))"
    by (subst (asm) process_pcch_proc_step.simps) (auto simp: Let_def split: option.splits if_splits)
  have q1: "adds_only (\<lambda>c. \<not> is_nas_paging c) r r2"
    using pcch_untouched_serv_cell_cfg_launch [OF l] by (simp add: pcch_untouched_def adds_only_iff)
  from res show ?thesis
  proof
    assume "\<not> launched \<and> oc = error \<and> r' = log_error r2"
    then show ?thesis
      using q1 by (simp add: adds_only_iff log_error_def)
  next
    let ?r3 = "r2\<lparr>pcch := (pcch r2)\<lparr>pcch_serv_cfg_fut := get_future (serv_cell_cfg r2),
              pcch_state := pcch_serv_cell_cfg\<rparr>\<rparr>"
    assume "launched \<and> process_pcch_proc_step ?r3 = Some (oc, r')"
    then have s: "process_pcch_proc_step ?r3 = Some (oc, r')" ..
    have st: "pcch_state (pcch ?r3) = pcch_serv_cell_cfg" by simp
    from pcch_step_serv_cell_cfg [OF st s]
    have "adds_only (\<lambda>c. \<not> is_nas_paging c) ?r3 r'" "pcch r' = pcch ?r3"
      by (simp_all add: pcch_untouched_def)
    moreover have "adds_only (\<lambda>c. \<not> is_nas_paging c) r ?r3"
      using q1 by (simp add: adds_only_iff)
    ultimately show ?thesis
      by (auto intro: adds_only_trans)
  qed
qed

text \<open>
  C6 (amended). When no record of the paging message carries the S-TMSI of the UE, the
  paging procedure never calls NAS paging: \<open>init\<close> adds no such call, and when it
  yields, the procedure is in the state \<open>serv_cell_cfg\<close>, where \<open>step\<close> adds none
  either and keeps the state, and the paging-complete event is ignored with a warning.
  When moreover the message does not announce a system information modification,
  \<open>init\<close> completes with success and the state differs from the one before only in
  the procedure's own fields (the stored message, the record index and the state of the
  procedure): no SIB of the serving cell is invalidated and the serving cell
  configuration is not launched.
\<close>

theorem pcch_no_match:
  assumes "\<forall>rec \<in> set (paging_record_list pg). \<not> s_tmsi_eq (ue_identity r) (ue_id_s_tmsi rec)"
  shows "(\<not> sys_info_mod_present pg \<longrightarrow>
            process_pcch_proc_init pg r =
              Some (success, r\<lparr>pcch := (pcch r)\<lparr>paging := pg,
                paging_idx := length (paging_record_list pg), pcch_state := pcch_next_record\<rparr>\<rparr>)) \<and>
         (process_pcch_proc_init pg r = Some (oc, r') \<longrightarrow>
            adds_only (\<lambda>c. \<not> is_nas_paging c) r r' \<and>
            (oc = yield \<longrightarrow> pcch_state (pcch r') = pcch_serv_cell_cfg)) \<and>
         (pcch_state (pcch r1) = pcch_serv_cell_cfg \<longrightarrow>
            process_pcch_proc_react b r1 = Some (yield, log_warning r1) \<and>
            (process_pcch_proc_step r1 = Some (oc1, r1') \<longrightarrow>
               adds_only (\<lambda>c. \<not> is_nas_paging c) r1 r1' \<and> pcch r1' = pcch r1))"
proof (intro conjI impI)
  let ?r0 = "r\<lparr>pcch := (pcch r)\<lparr>paging := pg, paging_idx := 0, pcch_state := pcch_next_record\<rparr>\<rparr>"
  let ?re = "r\<lparr>pcch := (pcch r)\<lparr>paging := pg, paging_idx := length (paging_record_list pg),
      pcch_state := pcch_next_record\<rparr>\<rparr>"
  have "process_pcch_proc_step ?r0 =
      process_pcch_proc_step (?r0\<lparr>pcch := (pcch ?r0)\<lparr>paging_idx :=
        length (paging_record_list (paging (pcch ?r0)))\<rparr>\<rparr>)"
    using assms
    by (intro pcch_step_skip [where n = "length (paging_record_list pg)"]) auto
  moreover have "?r0\<lparr>pcch := (pcch ?r0)\<lparr>paging_idx :=
        length (paging_record_list (paging (pcch ?r0)))\<rparr>\<rparr> = ?re"
    by simp
  ultimately have skip: "process_pcch_proc_step ?r0 = process_pcch_proc_step ?re"
    by (rule trans [OF _ arg_cong])
  {
    assume "\<not> sys_info_mod_present pg"
    then have "process_pcch_proc_step ?re = Some (success, ?re)"
      by (subst process_pcch_proc_step.simps) simp
    then show "process_pcch_proc_init pg r = Some (success, ?re)"
      using skip by (simp add: process_pcch_proc_init_def)
  }
  {
    assume "process_pcch_proc_init pg r = Some (oc, r')"
    then have s: "process_pcch_proc_step ?re = Some (oc, r')"
      using skip by (simp add: process_pcch_proc_init_def)
    have "adds_only (\<lambda>c. \<not> is_nas_paging c) ?re r' \<and>
        (oc = yield \<longrightarrow> pcch_state (pcch r') = pcch_serv_cell_cfg)"
      by (rule pcch_step_after_records [OF _ _ s]) simp_all
    then show "adds_only (\<lambda>c. \<not> is_nas_paging c) r r'"
      and "oc = yield \<Longrightarrow> pcch_state (pcch r') = pcch_serv_cell_cfg"
      by (simp_all add: adds_only_iff)
  }
  {
    assume st: "pcch_state (pcch r1) = pcch_serv_cell_cfg"
    then show "process_pcch_proc_react b r1 = Some (yield, log_warning r1)"
      by (simp add: process_pcch_proc_react_def)
    assume "process_pcch_proc_step r1 = Some (oc1, r1')"
    from pcch_step_serv_cell_cfg [OF st this]
    show "adds_only (\<lambda>c. \<not> is_nas_paging c) r1 r1'" "pcch r1' = pcch r1"
      by (simp_all add: pcch_untouched_def)
  }
qed

theorem pcch_no_match_witness:
  "paging_record_list (example_paging False) = [\<lparr>ue_id_s_tmsi = \<lparr>mmec = 9, m_tmsi = 9\<rparr>\<rparr>] \<and>
   paging_record_list (example_paging True) = [\<lparr>ue_id_s_tmsi = \<lparr>mmec = 9, m_tmsi = 9\<rparr>\<rparr>] \<and>
   \<not> s_tmsi_eq (ue_identity example_rrc) \<lparr>mmec = 9, m_tmsi = 9\<rparr> \<and>
   \<not> sys_info_mod_present (example_paging False) \<and>
   process_pcch_proc_init (example_paging False) example_rrc =
     Some (success, example_rrc\<lparr>pcch := \<lparr>paging = example_paging False, paging_idx = 1,
       pcch_state = pcch_next_record, pcch_serv_cfg_fut = None\<rparr>\<rparr>) \<and>
   (\<exists>r'. process_pcch_proc_init (example_paging True) example_rrc = Some (yield, r') \<and>
      adds_only (\<lambda>c. \<not> is_nas_paging c) example_rrc r' \<and>
      pcch_state (pcch r') = pcch_serv_cell_cfg \<and>
      process_pcch_proc_react True r' = Some (yield, log_warning r')) \<and>
   process_pcch_proc_step
       (example_rrc\<lparr>pcch := (pcch example_rrc)\<lparr>pcch_state := pcch_serv_cell_cfg\<rparr>\<rparr>) =
     Some (error, log_error
       (example_rrc\<lparr>pcch := (pcch example_rrc)\<lparr>pcch_state := pcch_serv_cell_cfg\<rparr>\<rparr>)) \<and>
   adds_only (\<lambda>c. \<not> is_nas_paging c)
     (example_rrc\<lparr>pcch := (pcch example_rrc)\<lparr>pcch_state := pcch_serv_cell_cfg\<rparr>\<rparr>)
     (log_error (example_rrc\<lparr>pcch := (pcch example_rrc)\<lparr>pcch_state := pcch_serv_cell_cfg\<rparr>\<rparr>))"
proof -
  let ?r1 = "example_rrc\<lparr>pcch := (pcch example_rrc)\<lparr>pcch_state := pcch_serv_cell_cfg\<rparr>\<rparr>"
  have a: "\<forall>rec \<in> set (paging_record_list (example_paging b)).
      \<not> s_tmsi_eq (ue_identity example_rrc) (ue_id_s_tmsi rec)" for b
    by (simp add: example_paging_def example_rrc_def s_tmsi_eq_def)
  have b: "\<not> sys_info_mod_present (example_paging False)"
    by (simp add: example_paging_def)
  have c: "length (paging_record_list (example_paging False)) = 1"
    "pcch example_rrc = \<lparr>paging = \<lparr>paging_record_list = [], sys_info_mod_present = False\<rparr>,
         paging_idx = 0, pcch_state = pcch_next_record, pcch_serv_cfg_fut = None\<rparr>"
    by (simp_all add: example_paging_def example_rrc_def)
  have d: "paging_record_list (example_paging False) = [\<lparr>ue_id_s_tmsi = \<lparr>mmec = 9, m_tmsi = 9\<rparr>\<rparr>]"
    "paging_record_list (example_paging True) = [\<lparr>ue_id_s_tmsi = \<lparr>mmec = 9, m_tmsi = 9\<rparr>\<rparr>]"
    "\<not> s_tmsi_eq (ue_identity example_rrc) \<lparr>mmec = 9, m_tmsi = 9\<rparr>"
    by (simp_all add: example_paging_def example_rrc_def s_tmsi_eq_def)
  have A: "process_pcch_proc_init (example_paging False) example_rrc =
     Some (success, example_rrc\<lparr>pcch := \<lparr>paging = example_paging False, paging_idx = 1,
       pcch_state = pcch_next_record, pcch_serv_cfg_fut = None\<rparr>\<rparr>)"
  proof -
    have "process_pcch_proc_init (example_paging False) example_rrc =
        Some (success, example_rrc\<lparr>pcch := (pcch example_rrc)\<lparr>paging := example_paging False,
          paging_idx := length (paging_record_list (example_paging False)),
          pcch_state := pcch_next_record\<rparr>\<rparr>)"
      using pcch_no_match [OF a, of False] b by blast
    then show ?thesis
      using c by simp
  qed
  have "process_pcch_proc_init (example_paging True) example_rrc \<noteq> None \<and>
      fst (the (process_pcch_proc_init (example_paging True) example_rrc)) = yield"
    by (simp add: process_pcch_proc_init_def process_pcch_proc_step.simps example_paging_def
        s_tmsi_eq_def reset_sibs_def scc_defs si_defs example_defs Let_def)
  then obtain r' where i: "process_pcch_proc_init (example_paging True) example_rrc = Some (yield, r')"
    by (cases "process_pcch_proc_init (example_paging True) example_rrc") auto
  note t = pcch_no_match [OF a, of True yield r' r' True]
  have B1: "adds_only (\<lambda>c. \<not> is_nas_paging c) example_rrc r'"
    and B2: "pcch_state (pcch r') = pcch_serv_cell_cfg"
    using t i by blast+
  have B3: "process_pcch_proc_react True r' = Some (yield, log_warning r')"
    using t B2 by blast
  have s: "process_pcch_proc_step ?r1 = Some (error, log_error ?r1)"
    by (simp add: process_pcch_proc_step.simps scc_defs example_defs Let_def)
  have st: "pcch_state (pcch ?r1) = pcch_serv_cell_cfg"
    by simp
  have C: "adds_only (\<lambda>c. \<not> is_nas_paging c) ?r1 (log_error ?r1)"
    using pcch_no_match [OF a, of False yield example_rrc ?r1 True error "log_error ?r1"] s st
    by blast
  have B: "\<exists>r'. process_pcch_proc_init (example_paging True) example_rrc = Some (yield, r') \<and>
      adds_only (\<lambda>c. \<not> is_nas_paging c) example_rrc r' \<and>
      pcch_state (pcch r') = pcch_serv_cell_cfg \<and>
      process_pcch_proc_react True r' = Some (yield, log_warning r')"
    using i B1 B2 B3 by blast
  show ?thesis
    using A B C d b s by blast
qed

text \<open>
  C6 as stated fails when the message announces a system information
  modification: no record is for the UE, and still the SIBs of the serving cell are
  invalidated, the serving cell configuration is launched and asks MAC to receive SIB1,
  and the paging procedure yields instead of completing.
\<close>

theorem pcch_sys_info_mod_side_effects:
  "\<not> s_tmsi_eq (ue_identity example_rrc) \<lparr>mmec = 9, m_tmsi = 9\<rparr> \<and>
   paging_record_list (example_paging True) = [\<lparr>ue_id_s_tmsi = \<lparr>mmec = 9, m_tmsi = 9\<rparr>\<rparr>] \<and>
   process_pcch_proc_init (example_paging True) example_rrc \<noteq> None \<and>
   fst (the (process_pcch_proc_init (example_paging True) example_rrc)) = yield \<and>
   serving_cell (snd (the (process_pcch_proc_init (example_paging True) example_rrc))) =
     reset_sibs example_cell \<and>
   busy (serv_cell_cfg (snd (the (process_pcch_proc_init (example_paging True) example_rrc)))) \<and>
   calls (snd (the (process_pcch_proc_init (example_paging True) example_rrc))) =
     [MAC_bcch_start_rx 25 1]"
  by (simp add: process_pcch_proc_init_def process_pcch_proc_step.simps example_paging_def
      s_tmsi_eq_def reset_sibs_def scc_defs si_defs example_defs Let_def)


section \<open>Properties of the handover procedure\<close>

text \<open>
  C10 (amended). \<open>ho_proc::step\<close> checks the RRC state first: when the UE is not in
  the connected state it returns error and does nothing else. No other handler of the
  handover procedure (\<open>init\<close>, the three \<open>react\<close> handlers, \<open>then\<close>) asks the
  PHY for a cell selection or resets the stack, in any state: once the UE has left the
  connected state, the handover procedure issues neither.
\<close>

theorem ho_step_checks_rrc_state:
  "(state r \<noteq> RRC_STATE_CONNECTED \<longrightarrow> ho_proc_step r = Some (error, r)) \<and>
   adds_only (\<lambda>c. \<not> is_phy_cell_select c \<and> \<not> is_stack_reset c) r (snd (ho_proc_init recfg r)) \<and>
   adds_only (\<lambda>c. \<not> is_phy_cell_select c \<and> \<not> is_stack_reset c) r
     (snd (ho_proc_react_cell_select b r)) \<and>
   adds_only (\<lambda>c. \<not> is_phy_cell_select c \<and> \<not> is_stack_reset c) r
     (snd (ho_proc_react_t304_expiry r)) \<and>
   adds_only (\<lambda>c. \<not> is_phy_cell_select c \<and> \<not> is_stack_reset c) r
     (snd (ho_proc_react_ra_completed b r)) \<and>
   adds_only (\<lambda>c. \<not> is_phy_cell_select c \<and> \<not> is_stack_reset c) r (ho_proc_then ok r)"
proof (intro conjI impI)
  let ?P = "\<lambda>c. \<not> is_phy_cell_select c \<and> \<not> is_stack_reset c"
  show "state r \<noteq> RRC_STATE_CONNECTED \<Longrightarrow> ho_proc_step r = Some (error, r)"
    by (simp add: ho_proc_step_def)
  show "adds_only ?P r (snd (ho_proc_init recfg r))"
    by (simp add: ho_proc_init_def Let_def adds_only_iff do_call_def log_warning_def log_error_def
        is_phy_cell_select_def is_stack_reset_def)
  show "adds_only ?P r (snd (ho_proc_react_cell_select b r))"
    by (simp add: ho_proc_react_cell_select_def Let_def adds_only_iff do_call_def do_calls_def
        log_warning_def log_error_def is_phy_cell_select_def is_stack_reset_def
        split: option.split)
  show "adds_only ?P r (snd (ho_proc_react_t304_expiry r))"
    by (simp add: ho_proc_react_t304_expiry_def adds_only_iff)
  show "adds_only ?P r (snd (ho_proc_react_ra_completed b r))"
    by (simp add: ho_proc_react_ra_completed_def Let_def adds_only_iff do_call_def
        log_warning_def log_error_def is_phy_cell_select_def is_stack_reset_def)
  show "adds_only ?P r (ho_proc_then ok r)"
    by (simp add: ho_proc_then_def adds_only_iff)
qed

lemmas ho_defs =
  ho_proc_step_def ho_proc_react_cell_select_def ho_proc_react_ra_completed_def
  get_neighbour_cell_handle_def do_calls_def do_call_def log_warning_def log_error_def

lemma ho_step_example: "ho_proc_step example_ho = Some (yield, example_ho_selecting)"
  by (simp add: example_ho_selecting_def example_ho_def ho_defs example_defs Let_def)

theorem ho_step_checks_rrc_state_witness:
  "state (example_ho_selecting\<lparr>state := RRC_STATE_IDLE\<rparr>) \<noteq> RRC_STATE_CONNECTED \<and>
   ho_proc_step (example_ho_selecting\<lparr>state := RRC_STATE_IDLE\<rparr>) =
     Some (error, example_ho_selecting\<lparr>state := RRC_STATE_IDLE\<rparr>) \<and>
   adds_only (\<lambda>c. \<not> is_phy_cell_select c \<and> \<not> is_stack_reset c)
     (example_ho_selecting\<lparr>state := RRC_STATE_IDLE\<rparr>)
     (snd (ho_proc_react_cell_select True (example_ho_selecting\<lparr>state := RRC_STATE_IDLE\<rparr>)))"
proof -
  have a: "state (example_ho_selecting\<lparr>state := RRC_STATE_IDLE\<rparr>) \<noteq> RRC_STATE_CONNECTED"
    by simp
  show ?thesis
    using ho_step_checks_rrc_state
      [of "example_ho_selecting\<lparr>state := RRC_STATE_IDLE\<rparr>" example_recfg True True] a
    by blast
qed

text \<open>
  C10 as stated fails for the random access. It is \<open>react\<close> that starts it, on
  the result of the PHY cell selection, and \<open>react\<close> does not look at the RRC state:
  here \<open>step\<close> requests the cell selection in the connected state, the UE leaves the
  connected state, and the result of the cell selection still starts the random access.
\<close>

theorem ho_react_starts_ra_when_idle:
  "ho_proc_step example_ho = Some (yield, example_ho_selecting) \<and>
   state (example_ho_selecting\<lparr>state := RRC_STATE_IDLE\<rparr>) = RRC_STATE_IDLE \<and>
   fst (ho_proc_react_cell_select True (example_ho_selecting\<lparr>state := RRC_STATE_IDLE\<rparr>)) = yield \<and>
   calls (snd (ho_proc_react_cell_select True (example_ho_selecting\<lparr>state := RRC_STATE_IDLE\<rparr>))) =
     calls example_ho_selecting @
       [RRC_set_serving_cell 2850 2 False, RRC_apply_scell_config, MAC_start_cont_ho,
        USIM_generate_as_keys_ho 2 (- 1), PDCP_config_security_all,
        RRC_send_rrc_con_reconfig_complete]"
proof -
  have "fst (ho_proc_react_cell_select True (example_ho_selecting\<lparr>state := RRC_STATE_IDLE\<rparr>)) = yield"
    by (simp add: example_ho_selecting_def example_ho_def ho_defs example_defs Let_def)
  moreover have "calls (snd (ho_proc_react_cell_select True
        (example_ho_selecting\<lparr>state := RRC_STATE_IDLE\<rparr>))) =
     calls example_ho_selecting @
       [RRC_set_serving_cell 2850 2 False, RRC_apply_scell_config, MAC_start_cont_ho,
        USIM_generate_as_keys_ho 2 (- 1), PDCP_config_security_all,
        RRC_send_rrc_con_reconfig_complete]"
    by (simp add: example_ho_selecting_def example_ho_def ho_defs example_defs Let_def)
  ultimately show ?thesis
    using ho_step_example by simp
qed

section \<open>Events in unexpected states\<close>

text \<open>
  C1 (amended). An event that arrives in a state in which the procedure does not await
  it makes the \<open>react\<close> handler return yield and changes nothing but the log: a warning
  is logged by the cell search procedure (result of the cell selection), by the cell
  selection procedure in the state \<open>cell_config\<close>, by the paging procedure and by the
  two handlers of the handover procedure; the cell selection procedure in the state
  \<open>cell_search\<close> and the connection request procedure yield silently. The exception is
  the cell search result: in a state other than \<open>phy_cell_search\<close> the cell search
  procedure logs an error and returns error. (The handlers of the SI acquisition and go
  idle procedures and the T304 expiry of the handover procedure do not depend on a
  state.)
\<close>

theorem react_in_unexpected_state:
  "(cell_search_state (cell_srch r) \<noteq> phy_cell_select \<longrightarrow>
      cell_search_proc_react_cell_select b r = (yield, log_warning r)) \<and>
   (cell_sel_state r = cell_config \<longrightarrow>
      cell_selection_proc_react f g b r = (yield, log_warning r)) \<and>
   (cell_sel_state r = cell_search \<longrightarrow>
      cell_selection_proc_react f g b r = (yield, r)) \<and>
   (cr_state (conn_req r) \<noteq> cr_cell_selection \<longrightarrow>
      connection_request_proc_react e r = Some (yield, r)) \<and>
   (pcch_state (pcch r) \<noteq> pcch_nas_paging \<longrightarrow>
      process_pcch_proc_react b r = Some (yield, log_warning r)) \<and>
   (ho_state (ho r) \<noteq> wait_phy_cell_select_complete \<longrightarrow>
      ho_proc_react_cell_select b r = (yield, log_warning r)) \<and>
   (ho_state (ho r) \<noteq> wait_ra_completion \<longrightarrow>
      ho_proc_react_ra_completed b r = (yield, log_warning r)) \<and>
   (cell_search_state (cell_srch r) \<noteq> phy_cell_search \<longrightarrow>
      cell_search_proc_react_cell_search ev r = (error, log_error r))"
  by (simp add: cell_search_proc_react_cell_select_def cell_selection_proc_react_def
      connection_request_proc_react_def process_pcch_proc_react_def
      ho_proc_react_cell_select_def ho_proc_react_ra_completed_def
      cell_search_proc_react_cell_search_def)

theorem react_in_unexpected_state_witness:
  "cell_search_state (cell_srch example_unexpected) \<noteq> phy_cell_select \<and>
   cell_search_proc_react_cell_select True example_unexpected =
     (yield, log_warning example_unexpected) \<and>
   cell_sel_state example_unexpected = cell_config \<and>
   cell_selection_proc_react (\<lambda>b r. (error, r)) (\<lambda>b r. (error, r)) True example_unexpected =
     (yield, log_warning example_unexpected) \<and>
   cell_sel_state (example_unexpected\<lparr>cell_sel_state := cell_search\<rparr>) = cell_search \<and>
   cell_selection_proc_react (\<lambda>b r. (error, r)) (\<lambda>b r. (error, r)) True
     (example_unexpected\<lparr>cell_sel_state := cell_search\<rparr>) =
     (yield, example_unexpected\<lparr>cell_sel_state := cell_search\<rparr>) \<and>
   cr_state (conn_req example_unexpected) \<noteq> cr_cell_selection \<and>
   connection_request_proc_react (cs_value changed_cell) example_unexpected =
     Some (yield, example_unexpected) \<and>
   pcch_state (pcch example_unexpected) \<noteq> pcch_nas_paging \<and>
   process_pcch_proc_react True example_unexpected = Some (yield, log_warning example_unexpected) \<and>
   ho_state (ho example_unexpected) \<noteq> wait_phy_cell_select_complete \<and>
   ho_proc_react_cell_select True example_unexpected = (yield, log_warning example_unexpected) \<and>
   ho_state (ho example_unexpected) \<noteq> wait_ra_completion \<and>
   ho_proc_react_ra_completed True example_unexpected = (yield, log_warning example_unexpected) \<and>
   cell_search_state (cell_srch example_unexpected) \<noteq> phy_cell_search \<and>
   cell_search_proc_react_cell_search
     \<lparr>cs_ret_found = CELL_FOUND, found_cell = \<lparr>phy_pci = 1, phy_earfcn = 2850\<rparr>\<rparr>
     example_unexpected = (error, log_error example_unexpected)"
proof -
  have s: "cell_search_state (cell_srch example_unexpected) = wait_measurement"
    "cell_sel_state example_unexpected = cell_config"
    "cr_state (conn_req example_unexpected) = cr_wait_t300"
    "pcch_state (pcch example_unexpected) = pcch_next_record"
    "ho_state (ho example_unexpected) = launch_phy_cell_select"
    by (simp_all add: example_unexpected_def example_rrc_def)
  show ?thesis
    using react_in_unexpected_state [of example_unexpected True "\<lambda>b r. (error, r)"
        "\<lambda>b r. (error, r)" "cs_value changed_cell"
        "\<lparr>cs_ret_found = CELL_FOUND, found_cell = \<lparr>phy_pci = 1, phy_earfcn = 2850\<rparr>\<rparr>"]
      react_in_unexpected_state [of "example_unexpected\<lparr>cell_sel_state := cell_search\<rparr>" True
        "\<lambda>b r. (error, r)" "\<lambda>b r. (error, r)" "cs_value changed_cell"
        "\<lparr>cs_ret_found = CELL_FOUND, found_cell = \<lparr>phy_pci = 1, phy_earfcn = 2850\<rparr>\<rparr>"]
      s
    by simp
qed

text \<open>
  C1 as stated fails for the cell search result: it arrives while the cell search
  procedure waits for a measurement, and the handler returns error, not yield.
\<close>

theorem cell_search_result_in_unexpected_state:
  "cell_search_state (cell_srch example_unexpected) = wait_measurement \<and>
   fst (cell_search_proc_react_cell_search
     \<lparr>cs_ret_found = CELL_FOUND, found_cell = \<lparr>phy_pci = 1, phy_earfcn = 2850\<rparr>\<rparr>
     example_unexpected) = error \<and>
   rrc_log (snd (cell_search_proc_react_cell_search
     \<lparr>cs_ret_found = CELL_FOUND, found_cell = \<lparr>phy_pci = 1, phy_earfcn = 2850\<rparr>\<rparr>
     example_unexpected)) = [LOG_ERROR]"
  by (simp add: cell_search_proc_react_cell_search_def example_unexpected_def example_rrc_def
      log_error_def)


text \<open>
  The handlers that do not test a state: the T304 expiry always ends the handover
  procedure with an error, the go idle procedure always succeeds on its event, and the SI
  acquisition procedure, while the SIB is missing, returns error on a timer event whose
  id is not the retry timer's (the timeout timer's, or an unknown one).
\<close>

lemma handlers_without_state_test:
  "ho_proc_react_t304_expiry r = (error, r)"
  "go_idle_proc_react b r = (success, do_call RRC_leave_connected r)"
  "\<not> has_sib (serving_cell r) (sib_index (si_acq r)) \<Longrightarrow>
     tid \<noteq> timer_id (si_acq_retry_timer (si_acq r)) \<Longrightarrow>
     si_acquire_proc_react_timer_expired tid r = Some (error, log_error r)"
  by (simp_all add: ho_proc_react_t304_expiry_def go_idle_proc_react_def
      si_acquire_proc_react_timer_expired_def)

end
